theory Spec2Isabelle
  imports
    Main
    "HOL-Library.Word"
    "HOL-Library.Signed_Division"
    "HOL-Library.Char_ord"
    "HOL-Library.List_Lexorder"
    "HOL-Library.Multiset"
begin

unbundle bit_operations_syntax

section \<open>Go values\<close>

text \<open>
  Go's \<open>int\<close> is taken at its 64-bit width: arithmetic wraps around, comparisons are
  signed (\<open><s\<close>, \<open>\<le>s\<close>), and \<open>/\<close> truncates towards zero. An \<open>error\<close> value is
  \<open>error option\<close>, \<open>None\<close> being \<open>nil\<close>. Strings are byte strings, ordered bytewise.
  Log output (\<open>l.Debugf\<close>, \<open>l.Infof\<close>) and the mutexes are left out: every function below
  is the body that runs while the lock is held.
\<close>

type_synonym gint = "64 word"
type_synonym int64 = "64 word"
type_synonym int32 = "32 word"
type_synonym uint32 = "32 word"
type_synonym ShortID = "64 word"

text \<open>Go's integer quotient: truncated towards zero, wrapping on \<open>MinInt / -1\<close>.\<close>

definition quo :: "'a::len word \<Rightarrow> 'a word \<Rightarrow> 'a word" where
  "quo a b = word_of_int (sint a sdiv sint b)"

text \<open>\<open>errors.Wrap(err, msg)\<close> keeps the cause and adds a message.\<close>

datatype error = Error string | Wrap error string

text \<open>A \<open>time.Time\<close>, read through \<open>Unix()\<close>.\<close>

datatype time = Time (Unix: int64) (Nanosecond: int32)

section \<open>File records\<close>

text \<open>
  Modelled from the spec: \<open>protocol.FileInfo\<close> and its methods are declared in the
  protocol package, not in this file. The record has the fields this file reads or
  writes; the type of a record is a file, a directory or one of the symbolic link kinds.
  \<open>IsDirectory\<close> is "the record is a directory", \<open>IsSymlink\<close> is "the file is a
  symbolic link", and \<open>IsReceiveOnlyChanged\<close> is "marked locally changed under
  receive-only policy", i.e. the \<open>FlagLocalReceiveOnly\<close> bit of the local flags is set.
  The value of that bit is a parameter. \<open>Uid\<close> and \<open>Gid\<close> have the width of the
  \<open>int\<close> that \<open>Lchown\<close> is given.
\<close>

datatype FileInfoType =
    FileInfoTypeFile
  | FileInfoTypeDirectory
  | FileInfoTypeSymlinkFile
  | FileInfoTypeSymlinkDirectory
  | FileInfoTypeSymlink

record Counter =
  ID :: ShortID
  Value :: "64 word"

record Vector =
  Counters :: "Counter list"

record FileInfo =
  Name :: string
  Type :: FileInfoType
  Size :: int64
  Permissions :: uint32
  ModifiedS :: int64
  ModifiedNs :: int32
  ModifiedBy :: ShortID
  Deleted :: bool
  Version :: Vector
  LocalFlags :: uint32
  Uid :: gint
  Gid :: gint

record BlockInfo =
  Offset :: int64

definition IsDirectory :: "FileInfo \<Rightarrow> bool" where
  "IsDirectory f = (Type f = FileInfoTypeDirectory)"

definition IsSymlink :: "FileInfo \<Rightarrow> bool" where
  "IsSymlink f =
     (case Type f of
        FileInfoTypeSymlink \<Rightarrow> True
      | FileInfoTypeSymlinkDirectory \<Rightarrow> True
      | FileInfoTypeSymlinkFile \<Rightarrow> True
      | _ \<Rightarrow> False)"

definition IsReceiveOnlyChanged :: "uint32 \<Rightarrow> FileInfo \<Rightarrow> bool" where
  "IsReceiveOnlyChanged FlagLocalReceiveOnly f =
     (LocalFlags f AND FlagLocalReceiveOnly \<noteq> 0)"

section \<open>The filesystem\<close>

text \<open>
  The filesystem is outside the program. Every call made to it is appended to a log, and
  the error it answers with is given by the environment as a function of the log so far
  and the call, so that any filesystem behaviour can be supplied. An open file is named by
  a handle; \<open>OpenFile\<close> hands out the position of its call in the log.
\<close>

datatype open_flag = OptReadWrite | OptCreate | OptExclusive

type_synonym File = nat

datatype fs_call =
    Chmod string uint32
  | Lchown string gint gint
  | OpenFile string "open_flag list" uint32
  | Hide string
  | Unhide string
  | Remove string
  | Truncate File int64
  | Sync File
  | Close File

type_synonym fs_log = "fs_call list"
type_synonym Filesystem = "fs_log \<Rightarrow> fs_call \<Rightarrow> error option"

definition fs_do :: "Filesystem \<Rightarrow> fs_call \<Rightarrow> fs_log \<Rightarrow> error option \<times> fs_log" where
  "fs_do env c w = (env w c, w @ [c])"

section \<open>sharedPullerState\<close>

record lockedWriterAt =
  fd :: File

text \<open>
  \<open>fileBlockSize\<close> stands for \<open>s.file.BlockSize()\<close>, a method of the protocol package;
  \<open>s.file\<close> is immutable, so it is one value per tracker.
\<close>

record sharedPullerState =
  "file" :: FileInfo
  fileBlockSize :: gint
  fs :: Filesystem
  folder :: string
  tempName :: string
  realName :: string
  reused :: gint
  ignorePerms :: bool
  hasCurFile :: bool
  curFile :: FileInfo
  sparse :: bool
  created :: time
  err :: "error option"
  writer :: "lockedWriterAt option"
  copyTotal :: gint
  pullTotal :: gint
  copyOrigin :: gint
  copyOriginShifted :: gint
  copyNeeded :: gint
  pullNeeded :: gint
  updated :: time
  closed :: bool
  available :: "int32 list"
  availableUpdated :: time

record pullerProgress =
  Total :: gint
  Reused :: gint
  CopiedFromOrigin :: gint
  CopiedFromOriginShifted :: gint
  CopiedFromElsewhere :: gint
  Pulled :: gint
  Pulling :: gint
  BytesDone :: int64
  BytesTotal :: int64

subsection \<open>lockedWriterAt.SyncClose\<close>

text \<open>The result of \<open>Sync\<close> is only logged; the result of \<open>Close\<close> is returned.\<close>

definition SyncClose :: "Filesystem \<Rightarrow> lockedWriterAt \<Rightarrow> fs_log \<Rightarrow> error option \<times> fs_log" where
  "SyncClose env w l =
     (let (serr, l1) = fs_do env (Sync (fd w)) l
      in fs_do env (Close (fd w)) l1)"

subsection \<open>fail, failLocked, failed\<close>

definition failLocked :: "error option \<Rightarrow> sharedPullerState \<Rightarrow> sharedPullerState" where
  "failLocked e s = (if err s \<noteq> None \<or> e = None then s else s\<lparr>err := e\<rparr>)"

definition fail :: "error option \<Rightarrow> sharedPullerState \<Rightarrow> sharedPullerState" where
  "fail e s = failLocked e s"

definition failed :: "sharedPullerState \<Rightarrow> error option" where
  "failed s = err s"

subsection \<open>tempFile and tempFileInWritableDir\<close>

text \<open>
  \<open>tempFileInWritableDir\<close> in two halves. \<open>openTemp\<close> is the first: the mode, the flags,
  the chmod and lchown of a reused file, the open and the hide. It returns the open file or
  the wrapped error.
\<close>

definition tempMode :: "sharedPullerState \<Rightarrow> uint32" where
  "tempMode s = (if ignorePerms s then 438 else Permissions (file s) OR 384)"

definition tempFlags :: "sharedPullerState \<Rightarrow> open_flag list" where
  "tempFlags s =
     (if reused s = 0 then [OptReadWrite, OptCreate, OptExclusive] else [OptReadWrite])"

definition openFd :: "sharedPullerState \<Rightarrow> fs_log \<Rightarrow> (error + File) \<times> fs_log" where
  "openFd s l =
     (let (oerr, l1) = fs_do (fs s) (OpenFile (tempName s) (tempFlags s) (tempMode s)) l
      in case oerr of
           Some e \<Rightarrow> (Inl (Wrap e ''opening temp file''), l1)
         | None \<Rightarrow>
             let (herr, l2) = fs_do (fs s) (Hide (tempName s)) l1
             in (Inr (length l), l2))"

definition openTemp :: "sharedPullerState \<Rightarrow> fs_log \<Rightarrow> (error + File) \<times> fs_log" where
  "openTemp s l =
     (if reused s = 0 then openFd s l
      else if \<not> ignorePerms s then
        (let (cerr, l1) = fs_do (fs s) (Chmod (tempName s) (tempMode s)) l
         in case cerr of
              Some e \<Rightarrow> (Inl (Wrap e ''setting perms on temp file''), l1)
            | None \<Rightarrow>
                let (lerr, l2) =
                      fs_do (fs s) (Lchown (tempName s) (Uid (file s)) (Gid (file s))) l1
                in case lerr of
                     Some e \<Rightarrow> (Inl (Wrap e ''setting owner on temp file''), l2)
                   | None \<Rightarrow> openFd s l2)
      else openFd s l)"

text \<open>
  \<open>presize\<close> is the second half: the truncate to the final size of a sparse file that is
  not a symlink, the clean-up when that fails on a reused file, and the store of the
  writer.
\<close>

definition presize ::
  "sharedPullerState \<Rightarrow> File \<Rightarrow> fs_log \<Rightarrow> error option \<times> sharedPullerState \<times> fs_log" where
  "presize s f l =
     (if sparse s \<and> \<not> IsSymlink (file s) then
        (let (terr, l1) = fs_do (fs s) (Truncate f (Size (file s))) l
         in case terr of
              Some e \<Rightarrow>
                if 0 <s reused s then
                  (let (cerr, l2) = fs_do (fs s) (Close f) l1;
                       (remErr, l3) = fs_do (fs s) (Remove (tempName s)) l2
                   in (Some e, s, l3))
                else (None, s\<lparr>writer := Some \<lparr>fd = f\<rparr>\<rparr>, l1)
            | None \<Rightarrow> (None, s\<lparr>writer := Some \<lparr>fd = f\<rparr>\<rparr>, l1))
      else (None, s\<lparr>writer := Some \<lparr>fd = f\<rparr>\<rparr>, l))"

definition tempFileInWritableDir ::
  "sharedPullerState \<Rightarrow> string \<Rightarrow> fs_log \<Rightarrow> error option \<times> sharedPullerState \<times> fs_log" where
  "tempFileInWritableDir s path l =
     (case openTemp s l of
        (Inl e, l1) \<Rightarrow> (Some e, s, l1)
      | (Inr f, l1) \<Rightarrow> presize s f l1)"

text \<open>
  Modelled from the spec: \<open>inWritableDir\<close> is defined elsewhere in the package. The spec
  has acquireTempHandle fail when "creation fails", with nothing between the tracker and
  the creation logic, so the wrapper runs the function it is given on the path and hands
  back its error.
\<close>

definition inWritableDir ::
  "(string \<Rightarrow> fs_log \<Rightarrow> error option \<times> sharedPullerState \<times> fs_log) \<Rightarrow>
   Filesystem \<Rightarrow> string \<Rightarrow> bool \<Rightarrow> fs_log \<Rightarrow> error option \<times> sharedPullerState \<times> fs_log" where
  "inWritableDir fn targetFs path ignPerms l = fn path l"

definition tempFile ::
  "sharedPullerState \<Rightarrow> fs_log \<Rightarrow>
   (lockedWriterAt option \<times> error option) \<times> sharedPullerState \<times> fs_log" where
  "tempFile s l =
     (if err s \<noteq> None then ((None, err s), s, l)
      else if writer s \<noteq> None then ((writer s, None), s, l)
      else
        (case inWritableDir (tempFileInWritableDir s) (fs s) (tempName s) (ignorePerms s) l of
           (Some e, s1, l1) \<Rightarrow> ((None, Some e), failLocked (Some e) s1, l1)
         | (None, s1, l1) \<Rightarrow> ((writer s1, None), s1, l1)))"

subsection \<open>The counters\<close>

text \<open>
  \<open>blockIndex\<close> is \<open>int32(block.Offset/int64(s.file.BlockSize()))\<close>: the division panics
  on a zero block size, which is the result \<open>None\<close> of \<open>copyDone\<close> and \<open>pullDone\<close>; the
  conversion keeps the low 32 bits. Each call of \<open>time.Now()\<close> is an argument.
\<close>

definition blockIndex :: "sharedPullerState \<Rightarrow> BlockInfo \<Rightarrow> int32 option" where
  "blockIndex s block =
     (if fileBlockSize s = 0 then None
      else Some (ucast (quo (Offset block) (fileBlockSize s))))"

definition copyDone ::
  "BlockInfo \<Rightarrow> time \<Rightarrow> time \<Rightarrow> sharedPullerState \<Rightarrow> sharedPullerState option" where
  "copyDone block now1 now2 s =
     (let s1 = s\<lparr>copyNeeded := copyNeeded s - 1, updated := now1\<rparr>
      in case blockIndex s1 block of
           None \<Rightarrow> None
         | Some i \<Rightarrow> Some (s1\<lparr>available := available s1 @ [i], availableUpdated := now2\<rparr>))"

definition copiedFromOrigin :: "time \<Rightarrow> sharedPullerState \<Rightarrow> sharedPullerState" where
  "copiedFromOrigin now s = s\<lparr>copyOrigin := copyOrigin s + 1, updated := now\<rparr>"

definition copiedFromOriginShifted :: "time \<Rightarrow> sharedPullerState \<Rightarrow> sharedPullerState" where
  "copiedFromOriginShifted now s =
     s\<lparr>copyOrigin := copyOrigin s + 1,
       copyOriginShifted := copyOriginShifted s + 1,
       updated := now\<rparr>"

definition pullStarted :: "time \<Rightarrow> sharedPullerState \<Rightarrow> sharedPullerState" where
  "pullStarted now s =
     s\<lparr>copyTotal := copyTotal s - 1,
       copyNeeded := copyNeeded s - 1,
       pullTotal := pullTotal s + 1,
       pullNeeded := pullNeeded s + 1,
       updated := now\<rparr>"

definition pullDone ::
  "BlockInfo \<Rightarrow> time \<Rightarrow> time \<Rightarrow> sharedPullerState \<Rightarrow> sharedPullerState option" where
  "pullDone block now1 now2 s =
     (let s1 = s\<lparr>pullNeeded := pullNeeded s - 1, updated := now1\<rparr>
      in case blockIndex s1 block of
           None \<Rightarrow> None
         | Some i \<Rightarrow> Some (s1\<lparr>available := available s1 @ [i], availableUpdated := now2\<rparr>))"

subsection \<open>finalClose\<close>

definition finalClose ::
  "sharedPullerState \<Rightarrow> fs_log \<Rightarrow> (bool \<times> error option) \<times> sharedPullerState \<times> fs_log" where
  "finalClose s l =
     (if closed s then ((False, None), s, l)
      else if pullNeeded s + copyNeeded s \<noteq> 0 \<and> err s = None then ((False, None), s, l)
      else
        (let (s1, l1) =
               (case writer s of
                  Some w \<Rightarrow>
                    (let (cerr, l') = SyncClose (fs s) w l;
                         s' = (if cerr \<noteq> None \<and> err s = None then s\<lparr>err := cerr\<rparr> else s)
                     in (s'\<lparr>writer := None\<rparr>, l'))
                | None \<Rightarrow> (s, l));
             s2 = s1\<lparr>closed := True\<rparr>;
             (uerr, l2) = fs_do (fs s2) (Unhide (tempName s2)) l1
         in ((True, err s2), s2, l2)))"

subsection \<open>Progress and blocksToSize\<close>

definition blocksToSize :: "gint \<Rightarrow> gint \<Rightarrow> int64" where
  "blocksToSize sz num =
     (if num <s 2 then quo sz 2
      else (num - 1) * sz + quo sz 2)"

definition progressTotal :: "sharedPullerState \<Rightarrow> gint" where
  "progressTotal s = reused s + copyTotal s + pullTotal s"

definition progressDone :: "sharedPullerState \<Rightarrow> gint" where
  "progressDone s = progressTotal s - copyNeeded s - pullNeeded s"

text \<open>
  \<open>Progress\<close> names eight of the nine fields of the literal; \<open>CopiedFromOriginShifted\<close>
  is not named and keeps Go's zero value.
\<close>

definition Progress :: "sharedPullerState \<Rightarrow> pullerProgress" where
  "Progress s =
     (let total = progressTotal s;
          done = progressDone s
      in \<lparr>Total = total,
          Reused = reused s,
          CopiedFromOrigin = copyOrigin s,
          CopiedFromOriginShifted = 0,
          CopiedFromElsewhere = copyTotal s - copyNeeded s - copyOrigin s,
          Pulled = pullTotal s - pullNeeded s,
          Pulling = pullNeeded s,
          BytesDone = blocksToSize (fileBlockSize s) done,
          BytesTotal = blocksToSize (fileBlockSize s) total\<rparr>)"

definition Updated :: "sharedPullerState \<Rightarrow> time" where
  "Updated s = updated s"

definition AvailableUpdated :: "sharedPullerState \<Rightarrow> time" where
  "AvailableUpdated s = availableUpdated s"

definition Available :: "sharedPullerState \<Rightarrow> int32 list" where
  "Available s = available s"

section \<open>deleteQueue\<close>

text \<open>
  Modelled from the spec: the ignore matcher is declared in the ignore package. Given a
  path it "reports whether it is ignored and, if so, whether it is nonetheless marked
  deletable".
\<close>

record ignore_Result =
  IsIgnored :: bool
  IsDeletable :: bool

type_synonym Matcher = "string \<Rightarrow> ignore_Result"

text \<open>
  What the folder does to the world outside \<open>Revert\<close> is a log of events, as for the
  filesystem; the deletion handler answers each call with an error or \<open>nil\<close>, as a
  function of the log so far. The scan channel handed to the handler is not modelled.
\<close>

datatype folderState = FolderIdle | FolderScanning

datatype folder_event =
    SetState folderState
  | GoPullScannerRoutine
  | CloseScanChan
  | DeleteItemOnDisk FileInfo
  | DeleteDirOnDisk string
  | UpdateLocalsFromScanning "FileInfo list"
  | SchedulePull

type_synonym folder_log = "folder_event list"

record deleteHandler =
  deleteItemOnDisk :: "folder_log \<Rightarrow> FileInfo \<Rightarrow> error option"
  deleteDirOnDisk :: "folder_log \<Rightarrow> string \<Rightarrow> error option"

record deleteQueue =
  handler :: deleteHandler
  ignores :: Matcher
  dirs :: "string list"

definition handle ::
  "deleteQueue \<Rightarrow> FileInfo \<Rightarrow> folder_log \<Rightarrow> (bool \<times> error option) \<times> deleteQueue \<times> folder_log" where
  "handle q fi l =
     (let ign = ignores q (Name fi)
      in if IsIgnored ign \<and> \<not> IsDeletable ign then ((False, None), q, l)
         else if IsDirectory fi then ((False, None), q\<lparr>dirs := dirs q @ [Name fi]\<rparr>, l)
         else ((True, deleteItemOnDisk (handler q) l fi), q, l @ [DeleteItemOnDisk fi]))"

text \<open>
  \<open>sort.Sort(sort.Reverse(sort.StringSlice(q.dirs)))\<close> leaves the slice ordered by the
  reversed \<open>Less\<close>, where \<open>Less(x, y)\<close> of the reversed order is \<open>y < x\<close> on strings.
  Strings that compare equal are the same string, so the outcome does not depend on the
  sorting algorithm; it is computed here by insertion.
\<close>

fun insertReverse :: "string \<Rightarrow> string list \<Rightarrow> string list" where
  "insertReverse x [] = [x]"
| "insertReverse x (y # ys) = (if y < x then x # y # ys else y # insertReverse x ys)"

definition sortReverse :: "string list \<Rightarrow> string list" where
  "sortReverse xs = foldr insertReverse xs []"

text \<open>The loop of \<open>flush\<close> over the sorted directories, with its two accumulators.\<close>

fun flushLoop ::
  "deleteHandler \<Rightarrow> string list \<Rightarrow> error option \<Rightarrow> string list \<Rightarrow> folder_log \<Rightarrow>
   (string list \<times> error option) \<times> folder_log" where
  "flushLoop h [] firstError deleted l = ((deleted, firstError), l)"
| "flushLoop h (dir # rest) firstError deleted l =
     (let e = deleteDirOnDisk h l dir;
          l1 = l @ [DeleteDirOnDisk dir]
      in if e = None then flushLoop h rest firstError (deleted @ [dir]) l1
         else if e \<noteq> None \<and> firstError = None then flushLoop h rest e deleted l1
         else flushLoop h rest firstError deleted l1)"

definition flush ::
  "deleteQueue \<Rightarrow> folder_log \<Rightarrow> (string list \<times> error option) \<times> deleteQueue \<times> folder_log" where
  "flush q l =
     (let q1 = q\<lparr>dirs := sortReverse (dirs q)\<rparr>;
          (res, l1) = flushLoop (handler q1) (dirs q1) None [] l
      in (res, q1, l1))"

section \<open>receiveOnlyFolder.Revert\<close>

text \<open>
  The folder as \<open>Revert\<close> uses it: its short device ID, its ignore matcher and its two
  deletion methods. Constants and methods of other files are parameters:
  \<open>FlagLocalReceiveOnly\<close>, \<open>maxBatchSizeFiles\<close>, \<open>maxBatchSizeBytes\<close> and the
  \<open>ProtoSize\<close> of a record. The records that \<open>WithHave\<close> visits are a list, in the order
  of the visit.
\<close>

record receiveOnlyFolder =
  shortID :: ShortID
  folderIgnores :: Matcher
  folderHandler :: deleteHandler

record revertParams =
  FlagLocalReceiveOnly :: uint32
  maxBatchSizeFiles :: gint
  maxBatchSizeBytes :: gint
  ProtoSize :: "FileInfo \<Rightarrow> gint"

record revertState =
  delQueue :: deleteQueue
  batch :: "FileInfo list"
  batchSizeBytes :: gint
  world :: folder_log

definition emptyVector :: Vector where
  "emptyVector = \<lparr>Counters = []\<rparr>"

text \<open>The two record literals of \<open>Revert\<close>; a field not named in a literal is zero.\<close>

definition fileTombstone :: "receiveOnlyFolder \<Rightarrow> FileInfo \<Rightarrow> FileInfo" where
  "fileTombstone f fi =
     \<lparr>Name = Name fi,
      Type = Type fi,
      Size = 0,
      Permissions = Permissions fi,
      ModifiedS = ModifiedS fi,
      ModifiedNs = ModifiedNs fi,
      ModifiedBy = shortID f,
      Deleted = True,
      Version = emptyVector,
      LocalFlags = 0,
      Uid = Uid fi,
      Gid = Gid fi\<rparr>"

definition dirTombstone :: "receiveOnlyFolder \<Rightarrow> time \<Rightarrow> string \<Rightarrow> FileInfo" where
  "dirTombstone f now dir =
     \<lparr>Name = dir,
      Type = FileInfoTypeDirectory,
      Size = 0,
      Permissions = 0,
      ModifiedS = Unix now,
      ModifiedNs = 0,
      ModifiedBy = shortID f,
      Deleted = True,
      Version = emptyVector,
      LocalFlags = 0,
      Uid = 0,
      Gid = 0\<rparr>"

text \<open>The tail of the callback: append to the batch, and hand the batch over when full.\<close>

definition addToBatch :: "revertParams \<Rightarrow> FileInfo \<Rightarrow> revertState \<Rightarrow> revertState" where
  "addToBatch P fi st =
     (let st1 = st\<lparr>batch := batch st @ [fi],
                   batchSizeBytes := batchSizeBytes st + ProtoSize P fi\<rparr>
      in if maxBatchSizeFiles P \<le>s word_of_nat (length (batch st1))
            \<or> maxBatchSizeBytes P \<le>s batchSizeBytes st1
         then st1\<lparr>world := world st1 @ [UpdateLocalsFromScanning (batch st1)],
                  batch := [],
                  batchSizeBytes := 0\<rparr>
         else st1)"

text \<open>The callback given to \<open>WithHave\<close>; it always returns \<open>true\<close>, so every record is visited.\<close>

definition onlyLocalCounter :: "receiveOnlyFolder \<Rightarrow> FileInfo \<Rightarrow> bool" where
  "onlyLocalCounter f fi =
     (length (Counters (Version fi)) = 1 \<and> ID (Counters (Version fi) ! 0) = shortID f)"

definition visit ::
  "revertParams \<Rightarrow> receiveOnlyFolder \<Rightarrow> FileInfo \<Rightarrow> revertState \<Rightarrow> revertState" where
  "visit P f fi st =
     (if \<not> IsReceiveOnlyChanged (FlagLocalReceiveOnly P) fi then st
      else if onlyLocalCounter f fi then
        (let ((handled, e), q1, l1) = handle (delQueue st) fi (world st);
             st1 = st\<lparr>delQueue := q1, world := l1\<rparr>
         in if e \<noteq> None then st1
            else if \<not> handled then st1
            else addToBatch P (fileTombstone f fi) st1)
      else
        addToBatch P
          (fi\<lparr>Version := emptyVector,
              LocalFlags := LocalFlags fi AND NOT (FlagLocalReceiveOnly P)\<rparr>) st)"

definition submit :: "revertState \<Rightarrow> revertState" where
  "submit st =
     (if 0 < length (batch st)
      then st\<lparr>world := world st @ [UpdateLocalsFromScanning (batch st)]\<rparr>
      else st)"

text \<open>\<open>Revert\<close> up to and including the hand-over of the last partial batch.\<close>

definition revertScan ::
  "revertParams \<Rightarrow> receiveOnlyFolder \<Rightarrow> FileInfo list \<Rightarrow> folder_log \<Rightarrow> revertState" where
  "revertScan P f recs l =
     (let l1 = l @ [SetState FolderScanning, GoPullScannerRoutine];
          st0 = \<lparr>delQueue = \<lparr>handler = folderHandler f, ignores = folderIgnores f, dirs = []\<rparr>,
                 batch = [], batchSizeBytes = 0, world = l1\<rparr>;
          st1 = fold (visit P f) recs st0;
          st2 = submit st1
      in st2\<lparr>batch := [], batchSizeBytes := 0\<rparr>)"

text \<open>
  The rest of \<open>Revert\<close>: the queued directories, their records, the scheduled pull, and
  the two deferred calls in their order.
\<close>

definition revertDirs :: "receiveOnlyFolder \<Rightarrow> time \<Rightarrow> revertState \<Rightarrow> revertState" where
  "revertDirs f now st =
     (let ((deleted, e), q1, l1) = flush (delQueue st) (world st);
          st1 = st\<lparr>delQueue := q1, world := l1,
                   batch := batch st @ map (dirTombstone f now) deleted\<rparr>;
          st2 = submit st1
      in st2\<lparr>world := world st2 @ [SchedulePull, CloseScanChan, SetState FolderIdle]\<rparr>)"

definition Revert ::
  "revertParams \<Rightarrow> receiveOnlyFolder \<Rightarrow> FileInfo list \<Rightarrow> time \<Rightarrow> folder_log \<Rightarrow> revertState" where
  "Revert P f recs now l = revertDirs f now (revertScan P f recs l)"

section \<open>Runs of calls on one tracker\<close>

text \<open>
  The methods that change a tracker, as values, so that a theorem can speak of every
  sequence of calls. \<open>call\<close> makes one call on a tracker and the filesystem log; its
  result is \<open>None\<close> when the call panics, and otherwise tells whether the call was a
  \<open>finalClose\<close> that returned \<open>true\<close>.
\<close>

datatype tracker_call =
    DoTempFile
  | DoFail "error option"
  | DoCopyDone BlockInfo time time
  | DoCopiedFromOrigin time
  | DoCopiedFromOriginShifted time
  | DoPullStarted time
  | DoPullDone BlockInfo time time
  | DoFinalClose

fun call ::
  "tracker_call \<Rightarrow> sharedPullerState \<times> fs_log \<Rightarrow> (bool \<times> sharedPullerState \<times> fs_log) option" where
  "call DoTempFile (s, l) = (case tempFile s l of (r, s1, l1) \<Rightarrow> Some (False, s1, l1))"
| "call (DoFail e) (s, l) = Some (False, fail e s, l)"
| "call (DoCopyDone b t1 t2) (s, l) =
     (case copyDone b t1 t2 s of None \<Rightarrow> None | Some s1 \<Rightarrow> Some (False, s1, l))"
| "call (DoCopiedFromOrigin t) (s, l) = Some (False, copiedFromOrigin t s, l)"
| "call (DoCopiedFromOriginShifted t) (s, l) = Some (False, copiedFromOriginShifted t s, l)"
| "call (DoPullStarted t) (s, l) = Some (False, pullStarted t s, l)"
| "call (DoPullDone b t1 t2) (s, l) =
     (case pullDone b t1 t2 s of None \<Rightarrow> None | Some s1 \<Rightarrow> Some (False, s1, l))"
| "call DoFinalClose (s, l) = (case finalClose s l of ((b, e), s1, l1) \<Rightarrow> Some (b, s1, l1))"

fun run ::
  "tracker_call list \<Rightarrow> sharedPullerState \<times> fs_log \<Rightarrow> (sharedPullerState \<times> fs_log) option" where
  "run [] st = Some st"
| "run (c # cs) st = (case call c st of None \<Rightarrow> None | Some (b, st1) \<Rightarrow> run cs st1)"

text \<open>The number of calls of a run that were a \<open>finalClose\<close> returning \<open>true\<close>.\<close>

fun closings :: "tracker_call list \<Rightarrow> sharedPullerState \<times> fs_log \<Rightarrow> nat" where
  "closings [] st = 0"
| "closings (c # cs) st =
     (case call c st of
        None \<Rightarrow> 0
      | Some (b, st1) \<Rightarrow> (if b then 1 else 0) + closings cs st1)"

section \<open>What a flush and a revert are measured against\<close>

text \<open>
  The outcome of deleting the given directories one after the other, each deletion seeing
  the log left by the ones before it.
\<close>

fun attempts :: "deleteHandler \<Rightarrow> string list \<Rightarrow> folder_log \<Rightarrow> (string \<times> error option) list" where
  "attempts h [] l = []"
| "attempts h (d # ds) l = (d, deleteDirOnDisk h l d) # attempts h ds (l @ [DeleteDirOnDisk d])"

definition firstFailure :: "(string \<times> error option) list \<Rightarrow> error option" where
  "firstFailure rs = (case filter (\<lambda>r. r \<noteq> None) (map snd rs) of [] \<Rightarrow> None | r # _ \<Rightarrow> r)"

text \<open>
  The records that have been put in a batch so far, in order: those already handed to
  \<open>updateLocalsFromScanning\<close> and those still in the batch.
\<close>

fun handedOver :: "folder_log \<Rightarrow> FileInfo list" where
  "handedOver [] = []"
| "handedOver (UpdateLocalsFromScanning b # l) = b @ handedOver l"
| "handedOver (e # l) = handedOver l"

definition batched :: "revertState \<Rightarrow> FileInfo list" where
  "batched st = handedOver (world st) @ batch st"

text \<open>The deletions asked of the disk so far.\<close>

fun deletions :: "folder_log \<Rightarrow> folder_event list" where
  "deletions [] = []"
| "deletions (DeleteItemOnDisk fi # l) = DeleteItemOnDisk fi # deletions l"
| "deletions (DeleteDirOnDisk d # l) = DeleteDirOnDisk d # deletions l"
| "deletions (e # l) = deletions l"

section \<open>Sample values\<close>

text \<open>
  A record changed on this device only (device 42), one that also carries a remote
  counter, and a directory; the receive-only bit is taken to be 8.
\<close>

definition sampleFile :: FileInfo where
  "sampleFile =
     \<lparr>Name = ''docs/f.txt'', Type = FileInfoTypeFile, Size = 1000, Permissions = 420,
      ModifiedS = 1500000000, ModifiedNs = 17, ModifiedBy = 42, Deleted = False,
      Version = \<lparr>Counters = [\<lparr>ID = 42, Value = 1\<rparr>]\<rparr>, LocalFlags = 8,
      Uid = 1000, Gid = 100\<rparr>"

definition sampleShared :: FileInfo where
  "sampleShared =
     sampleFile\<lparr>Name := ''docs/g.txt'',
       Version := \<lparr>Counters = [\<lparr>ID = 42, Value = 1\<rparr>, \<lparr>ID = 99, Value = 3\<rparr>]\<rparr>\<rparr>"

definition sampleDir :: FileInfo where
  "sampleDir =
     sampleFile\<lparr>Name := ''docs'', Type := FileInfoTypeDirectory, Permissions := 493\<rparr>"

definition okFs :: Filesystem where
  "okFs l c = None"

definition noTruncateFs :: Filesystem where
  "noTruncateFs l c = (case c of Truncate f n \<Rightarrow> Some (Error ''no space'') | _ \<Rightarrow> None)"

definition noCloseFs :: Filesystem where
  "noCloseFs l c =
     (case c of
        Sync f \<Rightarrow> Some (Error ''fsync'')
      | Close f \<Rightarrow> Some (Error ''close'')
      | _ \<Rightarrow> None)"

definition sampleTracker :: "Filesystem \<Rightarrow> gint \<Rightarrow> sharedPullerState" where
  "sampleTracker env r =
     \<lparr>file = sampleFile, fileBlockSize = 131072, fs = env, folder = ''default'',
      tempName = ''docs/.syncthing.f.txt.tmp'', realName = ''docs/f.txt'', reused = r,
      ignorePerms = False, hasCurFile = False, curFile = sampleFile, sparse = True,
      created = Time 1500000000 0, err = None, writer = None,
      copyTotal = 3, pullTotal = 0, copyOrigin = 0, copyOriginShifted = 0,
      copyNeeded = 3, pullNeeded = 0, updated = Time 1500000000 0, closed = False,
      available = [], availableUpdated = Time 1500000000 0\<rparr>"

definition okHandler :: deleteHandler where
  "okHandler = \<lparr>deleteItemOnDisk = (\<lambda>l fi. None), deleteDirOnDisk = (\<lambda>l d. None)\<rparr>"

definition failingHandler :: deleteHandler where
  "failingHandler =
     \<lparr>deleteItemOnDisk = (\<lambda>l fi. Some (Error ''permission denied'')),
      deleteDirOnDisk = (\<lambda>l d. if d = ''a'' then None else Some (Error (d @ '': not empty'')))\<rparr>"

definition noIgnores :: Matcher where
  "noIgnores name = \<lparr>IsIgnored = False, IsDeletable = False\<rparr>"

definition ignoreAll :: Matcher where
  "ignoreAll name = \<lparr>IsIgnored = True, IsDeletable = False\<rparr>"

definition sampleFolder :: "deleteHandler \<Rightarrow> receiveOnlyFolder" where
  "sampleFolder h = \<lparr>shortID = 42, folderIgnores = noIgnores, folderHandler = h\<rparr>"

definition sampleParams :: revertParams where
  "sampleParams =
     \<lparr>FlagLocalReceiveOnly = 8, maxBatchSizeFiles = 1000, maxBatchSizeBytes = 256000,
      ProtoSize = (\<lambda>fi. 100)\<rparr>"

definition sampleQueue :: "deleteHandler \<Rightarrow> Matcher \<Rightarrow> deleteQueue" where
  "sampleQueue h m = \<lparr>handler = h, ignores = m, dirs = []\<rparr>"

definition sampleState :: "deleteHandler \<Rightarrow> revertState" where
  "sampleState h =
     \<lparr>delQueue = sampleQueue h noIgnores, batch = [], batchSizeBytes = 0, world = []\<rparr>"

section \<open>The block-to-byte conversion\<close>

lemma sint_of_int_64:
  "- (2 ^ 63) \<le> k \<Longrightarrow> k < 2 ^ 63 \<Longrightarrow> sint (word_of_int k :: 64 word) = k"
  by (simp add: sint_sbintrunc' signed_take_bit_int_eq_self_iff)

lemma sint_64_range: "- (2 ^ 63) \<le> sint (w :: 64 word) \<and> sint w < 2 ^ 63"
  using sint_ge [of w] sint_lt [of w] by simp

lemma quo_2_eq:
  assumes "0 <s (sz :: 64 word)"
  shows "quo sz 2 = word_of_int (sint sz div 2)"
proof -
  from assms have "0 < sint sz" by (simp add: word_sless_alt)
  then show ?thesis by (simp add: quo_def signed_divide_int_def sgn_if)
qed

lemma sint_quo_2:
  assumes "0 <s (sz :: 64 word)"
  shows "sint (quo sz 2) = sint sz div 2"
proof -
  from assms have pos: "0 < sint sz" by (simp add: word_sless_alt)
  have "- (2 ^ 63) \<le> sint sz div 2" "sint sz div 2 < 2 ^ 63"
    using pos sint_64_range [of sz] by auto
  then show ?thesis by (simp add: quo_2_eq [OF assms] sint_of_int_64)
qed

lemma blocksToSize_word_of_int:
  assumes "0 <s sz" and "\<not> num <s 2"
  shows "blocksToSize sz num = word_of_int ((sint num - 1) * sint sz + sint sz div 2)"
  using assms(2) by (simp add: blocksToSize_def quo_2_eq [OF assms(1)] wi_hom_syms)

text \<open>
  C9. For every block size greater than zero, \<open>blocksToSize\<close> is half the size
  (\<open>size / 2\<close>, which is the floor of the half) when the number of blocks is below 2,
  and \<open>(num - 1) * size + size / 2\<close> otherwise, in Go's 64-bit arithmetic; for 0, 1
  and 5 blocks that is \<open>size / 2\<close>, \<open>size / 2\<close> and \<open>4 * size + size / 2\<close>. Whenever
  the number \<open>(num - 1) * size + size / 2\<close> fits 64 bits, it is the value returned.
\<close>

theorem blocksToSize_halves:
  "0 <s sz \<Longrightarrow>
     sint (quo sz 2) = sint sz div 2 \<and>
     (num <s 2 \<longrightarrow> blocksToSize sz num = quo sz 2) \<and>
     (\<not> num <s 2 \<longrightarrow> blocksToSize sz num = (num - 1) * sz + quo sz 2) \<and>
     blocksToSize sz 0 = quo sz 2 \<and>
     blocksToSize sz 1 = quo sz 2 \<and>
     blocksToSize sz 5 = 4 * sz + quo sz 2 \<and>
     (\<not> num <s 2 \<and> - (2 ^ 63) \<le> (sint num - 1) * sint sz + sint sz div 2
        \<and> (sint num - 1) * sint sz + sint sz div 2 < 2 ^ 63 \<longrightarrow>
      sint (blocksToSize sz num) = (sint num - 1) * sint sz + sint sz div 2)"
proof -
  assume pos: "0 <s sz"
  have inst: "blocksToSize sz 0 = quo sz 2" "blocksToSize sz 1 = quo sz 2"
    "blocksToSize sz 5 = 4 * sz + quo sz 2"
    by (simp_all add: blocksToSize_def word_sless_alt)
  have big: "sint (blocksToSize sz num) = (sint num - 1) * sint sz + sint sz div 2"
    if "\<not> num <s 2" "- (2 ^ 63) \<le> (sint num - 1) * sint sz + sint sz div 2"
      "(sint num - 1) * sint sz + sint sz div 2 < 2 ^ 63"
    using that by (simp only: blocksToSize_word_of_int [OF pos that(1)] sint_of_int_64)
  show ?thesis
    using sint_quo_2 [OF pos] inst big by (simp add: blocksToSize_def)
qed

theorem blocksToSize_halves_witness:
  "0 <s (7 :: gint) \<and> sint (blocksToSize 7 0) = 3 \<and> sint (blocksToSize 7 1) = 3
     \<and> sint (blocksToSize 7 5) = 31 \<and> sint (blocksToSize 7 100) = 696"
  using blocksToSize_halves [of 7 100] blocksToSize_halves [of 7 5]
  by (simp add: word_sless_alt quo_def signed_divide_int_def)

section \<open>The sticky error\<close>

lemma failLocked_err:
  "err (failLocked e s) = (if err s = None then e else err s)"
  by (cases e) (auto simp: failLocked_def)

lemma failLocked_rest:
  "failLocked e s = s\<lparr>err := err (failLocked e s)\<rparr>"
  by (simp add: failLocked_def)

text \<open>
  C4. The sticky error is write-once. Once it is set, no \<open>fail\<close> changes it, so of two
  calls the first error is the one kept; \<open>fail(nil)\<close> neither sets nor overwrites it; on
  a tracker without an error \<open>fail(e)\<close> sets it; \<open>fail\<close> changes no other field; and
  \<open>failed\<close> returns the error that is set.
\<close>

theorem fail_write_once:
  "(err s \<noteq> None \<longrightarrow> fail e2 s = s) \<and>
   fail None s = s \<and>
   (err s = None \<longrightarrow> err (fail (Some e1) s) = Some e1) \<and>
   (err s = None \<longrightarrow> err (fail e2 (fail (Some e1) s)) = Some e1) \<and>
   fail e2 s = s\<lparr>err := err (fail e2 s)\<rparr> \<and>
   failed s = err s \<and>
   failed (fail e2 s) = (if err s = None then e2 else err s)"
  by (cases e2) (auto simp: fail_def failLocked_def failed_def)

theorem fail_write_once_witness:
  "err (sampleTracker okFs 0) = None \<and>
   failed (fail (Some (Error ''second''))
             (fail (Some (Error ''first'')) (sampleTracker okFs 0))) = Some (Error ''first'') \<and>
   err (fail (Some (Error ''first'')) (sampleTracker okFs 0)) \<noteq> None \<and>
   fail None (fail (Some (Error ''first'')) (sampleTracker okFs 0))
     = fail (Some (Error ''first'')) (sampleTracker okFs 0)"
  using fail_write_once [of "sampleTracker okFs 0" "Some (Error ''second'')" "Error ''first''"]
    fail_write_once [of "fail (Some (Error ''first'')) (sampleTracker okFs 0)" None]
  by (simp add: sampleTracker_def failed_def)

section \<open>deleteQueue.handle\<close>

text \<open>
  C8. \<open>handle\<close> returns \<open>(false, nil)\<close> and leaves the queue and the disk as they are
  when the name is ignored and not deletable; otherwise, for a directory, it appends the
  name to the pending directories and returns \<open>(false, nil)\<close> without touching the
  disk; otherwise it has the handler delete the item at once and returns \<open>true\<close> with the
  handler's error.
\<close>

theorem handle_three_ways:
  "(IsIgnored (ignores q (Name fi)) \<and> \<not> IsDeletable (ignores q (Name fi)) \<longrightarrow>
      handle q fi l = ((False, None), q, l)) \<and>
   (\<not> (IsIgnored (ignores q (Name fi)) \<and> \<not> IsDeletable (ignores q (Name fi)))
      \<and> IsDirectory fi \<longrightarrow>
      handle q fi l = ((False, None), q\<lparr>dirs := dirs q @ [Name fi]\<rparr>, l)) \<and>
   (\<not> (IsIgnored (ignores q (Name fi)) \<and> \<not> IsDeletable (ignores q (Name fi)))
      \<and> \<not> IsDirectory fi \<longrightarrow>
      handle q fi l =
        ((True, deleteItemOnDisk (handler q) l fi), q, l @ [DeleteItemOnDisk fi]))"
  by (simp add: handle_def Let_def)

theorem handle_three_ways_witness:
  "handle (sampleQueue okHandler ignoreAll) sampleFile []
     = ((False, None), sampleQueue okHandler ignoreAll, []) \<and>
   handle (sampleQueue okHandler noIgnores) sampleDir []
     = ((False, None), (sampleQueue okHandler noIgnores)\<lparr>dirs := [''docs'']\<rparr>, []) \<and>
   handle (sampleQueue failingHandler noIgnores) sampleFile []
     = ((True, Some (Error ''permission denied'')), sampleQueue failingHandler noIgnores,
        [DeleteItemOnDisk sampleFile]) \<and>
   handle (sampleQueue okHandler noIgnores) sampleFile []
     = ((True, None), sampleQueue okHandler noIgnores, [DeleteItemOnDisk sampleFile])"
  using handle_three_ways [of "sampleQueue okHandler ignoreAll" sampleFile "[]"]
    handle_three_ways [of "sampleQueue okHandler noIgnores" sampleDir "[]"]
    handle_three_ways [of "sampleQueue failingHandler noIgnores" sampleFile "[]"]
    handle_three_ways [of "sampleQueue okHandler noIgnores" sampleFile "[]"]
  by (simp add: sampleQueue_def ignoreAll_def noIgnores_def sampleFile_def sampleDir_def
      IsDirectory_def okHandler_def failingHandler_def)

section \<open>Progress\<close>

lemma Progress_fields:
  "Total (Progress s) = reused s + copyTotal s + pullTotal s \<and>
   Reused (Progress s) = reused s \<and>
   CopiedFromOrigin (Progress s) = copyOrigin s \<and>
   CopiedFromElsewhere (Progress s) = copyTotal s - copyNeeded s - copyOrigin s \<and>
   Pulled (Progress s) = pullTotal s - pullNeeded s \<and>
   Pulling (Progress s) = pullNeeded s \<and>
   BytesTotal (Progress s) = blocksToSize (fileBlockSize s) (Total (Progress s)) \<and>
   BytesDone (Progress s) =
     blocksToSize (fileBlockSize s) (Total (Progress s) - copyNeeded s - pullNeeded s)"
  by (simp add: Progress_def Let_def progressTotal_def progressDone_def)

lemma Progress_shifted_zero: "CopiedFromOriginShifted (Progress s) = 0"
  by (simp add: Progress_def Let_def)

text \<open>
  C2. The snapshot is to report \<open>copiedFromOriginShifted = copyOriginShifted\<close>. After one
  \<open>copiedFromOriginShifted\<close> on the sample tracker the counter is 1 and the base origin
  counter is 1, and \<open>Progress\<close> reports the base counter as 1 but the shifted one as 0.
\<close>

theorem Progress_drops_shifted:
  "copyOriginShifted (copiedFromOriginShifted (Time 1500000001 0) (sampleTracker okFs 0)) = 1 \<and>
   CopiedFromOrigin
     (Progress (copiedFromOriginShifted (Time 1500000001 0) (sampleTracker okFs 0))) = 1 \<and>
   CopiedFromOriginShifted
     (Progress (copiedFromOriginShifted (Time 1500000001 0) (sampleTracker okFs 0))) = 0"
  by (simp add: Progress_def Let_def copiedFromOriginShifted_def sampleTracker_def)

section \<open>The progress invariant\<close>

lemma presize_frame:
  "presize s f l = (r, s', l') \<Longrightarrow> s' = s \<or> s' = s\<lparr>writer := Some \<lparr>fd = f\<rparr>\<rparr>"
  by (auto simp: presize_def fs_do_def Let_def split: if_splits option.splits)

lemma tempFileInWritableDir_frame:
  "tempFileInWritableDir s p l = (r, s', l') \<Longrightarrow> \<exists>w. s' = s\<lparr>writer := w\<rparr>"
proof -
  assume a: "tempFileInWritableDir s p l = (r, s', l')"
  have self: "s = s\<lparr>writer := writer s\<rparr>" by simp
  from a have "s' = s \<or> (\<exists>f. s' = s\<lparr>writer := Some \<lparr>fd = f\<rparr>\<rparr>)"
    by (auto simp: tempFileInWritableDir_def split: prod.splits sum.splits dest: presize_frame)
  then show ?thesis using self by blast
qed

lemma tempFile_frame:
  "tempFile s l = (r, s', l') \<Longrightarrow> \<exists>e w. s' = s\<lparr>err := e, writer := w\<rparr>"
proof -
  assume a: "tempFile s l = (r, s', l')"
  have self: "s = s\<lparr>err := err s, writer := writer s\<rparr>" by simp
  show ?thesis
  proof (cases "err s \<noteq> None \<or> writer s \<noteq> None")
    case True
    with a have "s' = s" by (auto simp: tempFile_def split: if_splits)
    with self show ?thesis by blast
  next
    case False
    obtain r1 s1 l1 where t: "tempFileInWritableDir s (tempName s) l = (r1, s1, l1)"
      by (cases "tempFileInWritableDir s (tempName s) l") auto
    from tempFileInWritableDir_frame [OF t] obtain w where f: "s1 = s\<lparr>writer := w\<rparr>" by blast
    from a False t have "s' = s1 \<or> s' = s1\<lparr>err := r1\<rparr>"
      by (auto simp: tempFile_def inWritableDir_def failLocked_def split: option.splits)
    then show ?thesis
    proof
      assume "s' = s1"
      with f have "s' = s\<lparr>err := err s, writer := w\<rparr>" by simp
      then show ?thesis by blast
    next
      assume "s' = s1\<lparr>err := r1\<rparr>"
      with f have "s' = s\<lparr>err := r1, writer := w\<rparr>" by simp
      then show ?thesis by blast
    qed
  qed
qed

lemma finalClose_frame:
  "finalClose s l = (r, s', l') \<Longrightarrow> \<exists>e w c. s' = s\<lparr>err := e, writer := w, closed := c\<rparr>"
proof -
  assume a: "finalClose s l = (r, s', l')"
  have self: "s = s\<lparr>err := err s, writer := writer s, closed := closed s\<rparr>" by simp
  show ?thesis
  proof (cases "closed s \<or> (pullNeeded s + copyNeeded s \<noteq> 0 \<and> err s = None)")
    case True
    with a have "s' = s" by (auto simp: finalClose_def split: if_splits)
    with self show ?thesis by blast
  next
    case False
    show ?thesis
    proof (cases "writer s")
      case None
      with a False have "s' = s\<lparr>err := err s, writer := writer s, closed := True\<rparr>"
        by (auto simp: finalClose_def fs_do_def Let_def split: if_splits)
      then show ?thesis by blast
    next
      case (Some w)
      with a False have "s' = s\<lparr>err := err s', writer := None, closed := True\<rparr>"
        by (auto simp: finalClose_def fs_do_def Let_def SyncClose_def split: if_splits prod.splits)
      then show ?thesis by blast
    qed
  qed
qed


lemma copyDone_Some:
  "copyDone b t1 t2 s = Some s' \<Longrightarrow>
     \<exists>i. s' = s\<lparr>copyNeeded := copyNeeded s - 1, updated := t1,
                 available := available s @ [i], availableUpdated := t2\<rparr>"
  by (auto simp: copyDone_def Let_def blockIndex_def split: option.splits if_splits)

lemma pullDone_Some:
  "pullDone b t1 t2 s = Some s' \<Longrightarrow>
     \<exists>i. s' = s\<lparr>pullNeeded := pullNeeded s - 1, updated := t1,
                 available := available s @ [i], availableUpdated := t2\<rparr>"
  by (auto simp: pullDone_def Let_def blockIndex_def split: option.splits if_splits)

lemma copyDone_returns: "fileBlockSize s \<noteq> 0 \<Longrightarrow> copyDone b t1 t2 s \<noteq> None"
  by (simp add: copyDone_def Let_def blockIndex_def)

lemma pullDone_returns: "fileBlockSize s \<noteq> 0 \<Longrightarrow> pullDone b t1 t2 s \<noteq> None"
  by (simp add: pullDone_def Let_def blockIndex_def)

text \<open>What one call does to the block size, the total and the number of blocks done.\<close>

lemma call_progress:
  assumes "call c (s, l) = Some (b, s', l')"
  shows "fileBlockSize s' = fileBlockSize s \<and> progressTotal s' = progressTotal s \<and>
         (progressDone s' = progressDone s \<or> progressDone s' = progressDone s + 1)"
proof (cases c)
  case DoTempFile
  with assms obtain r where "tempFile s l = (r, s', l')"
    by (auto split: prod.splits)
  from tempFile_frame [OF this] show ?thesis
    by (auto simp: progressTotal_def progressDone_def)
next
  case (DoFail e)
  with assms show ?thesis
    by (auto simp: fail_def failLocked_def progressTotal_def progressDone_def)
next
  case (DoCopyDone blk t1 t2)
  with assms have "copyDone blk t1 t2 s = Some s'" by (auto split: option.splits)
  from copyDone_Some [OF this] show ?thesis
    by (auto simp: progressTotal_def progressDone_def)
next
  case (DoCopiedFromOrigin t)
  with assms show ?thesis
    by (auto simp: copiedFromOrigin_def progressTotal_def progressDone_def)
next
  case (DoCopiedFromOriginShifted t)
  with assms show ?thesis
    by (auto simp: copiedFromOriginShifted_def progressTotal_def progressDone_def)
next
  case (DoPullStarted t)
  with assms show ?thesis
    by (auto simp: pullStarted_def progressTotal_def progressDone_def)
next
  case (DoPullDone blk t1 t2)
  with assms have "pullDone blk t1 t2 s = Some s'" by (auto split: option.splits)
  from pullDone_Some [OF this] show ?thesis
    by (auto simp: progressTotal_def progressDone_def)
next
  case DoFinalClose
  with assms obtain r where "finalClose s l = (r, s', l')"
    by (auto split: prod.splits)
  from finalClose_frame [OF this] show ?thesis
    by (auto simp: progressTotal_def progressDone_def)
qed

lemma call_returns: "fileBlockSize s \<noteq> 0 \<Longrightarrow> call c (s, l) \<noteq> None"
  by (cases c) (auto simp: copyDone_returns pullDone_returns split: prod.splits option.splits)

lemma run_progress:
  "run cs (s, l) = Some (s', l') \<Longrightarrow>
     fileBlockSize s' = fileBlockSize s \<and> progressTotal s' = progressTotal s \<and>
     (\<exists>k \<le> length cs. progressDone s' = progressDone s + of_nat k)"
proof (induction cs arbitrary: s l)
  case Nil
  then show ?case by simp
next
  case (Cons c cs)
  from Cons.prems obtain b s1 l1 where
    c: "call c (s, l) = Some (b, s1, l1)" and r: "run cs (s1, l1) = Some (s', l')"
    by (auto split: option.splits)
  from call_progress [OF c] have
    1: "fileBlockSize s1 = fileBlockSize s" "progressTotal s1 = progressTotal s"
    and d: "progressDone s1 = progressDone s \<or> progressDone s1 = progressDone s + 1"
    by auto
  from Cons.IH [OF r] obtain k where
    2: "fileBlockSize s' = fileBlockSize s1" "progressTotal s' = progressTotal s1"
    and k: "k \<le> length cs" "progressDone s' = progressDone s1 + of_nat k"
    by auto
  from d have "\<exists>j \<le> length (c # cs). progressDone s' = progressDone s + of_nat j"
  proof
    assume "progressDone s1 = progressDone s"
    with k have "k \<le> length (c # cs) \<and> progressDone s' = progressDone s + of_nat k" by simp
    then show ?thesis by blast
  next
    assume "progressDone s1 = progressDone s + 1"
    with k have "Suc k \<le> length (c # cs) \<and> progressDone s' = progressDone s + of_nat (Suc k)"
      by simp
    then show ?thesis by blast
  qed
  with 1 2 show ?case by simp
qed

lemma run_returns: "fileBlockSize s \<noteq> 0 \<Longrightarrow> run cs (s, l) \<noteq> None"
proof (induction cs arbitrary: s l)
  case Nil
  then show ?case by simp
next
  case (Cons c cs)
  from call_returns [OF Cons.prems, of c l] obtain b s1 l1 where
    c: "call c (s, l) = Some (b, s1, l1)" by (cases "call c (s, l)") auto
  from call_progress [OF c] Cons.prems have "fileBlockSize s1 \<noteq> 0" by simp
  from Cons.IH [OF this] c show ?case by simp
qed

lemma sint_add_nat_64:
  assumes "sint (w :: 64 word) + int k < 2 ^ 63"
  shows "sint (w + of_nat k) = sint w + int k"
proof -
  have "- (2 ^ 63) \<le> sint w + int k" using sint_ge [of w] by simp
  moreover have "w + of_nat k = word_of_int (sint w + int k)"
    by (simp add: wi_hom_syms)
  ultimately show ?thesis using assms by (simp only: sint_of_int_64)
qed


text \<open>
  C5. The snapshot's total is \<open>reused + copyTotal + pullTotal\<close> and its bytes done are
  those of \<open>done = total - copyNeeded - pullNeeded\<close> blocks. Over every sequence of calls
  on a tracker, whatever the calls are, the total of the later snapshot is the total of
  the earlier one, and \<open>done\<close> has grown by at most one per call and has not decreased,
  as long as the count stays within Go's \<open>int\<close>. One call: \<open>copyDone\<close> and \<open>pullDone\<close>
  add one to \<open>done\<close>; the two origin counters and \<open>pullStarted\<close> leave it as it is. With
  a block size other than zero every call returns.
\<close>

theorem progress_invariant:
  "Total (Progress s) = reused s + copyTotal s + pullTotal s \<and>
   progressDone s = Total (Progress s) - copyNeeded s - pullNeeded s \<and>
   BytesDone (Progress s) = blocksToSize (fileBlockSize s) (progressDone s) \<and>
   (fileBlockSize s \<noteq> 0 \<longrightarrow> run cs (s, l) \<noteq> None) \<and>
   (\<forall>s' l'. run cs (s, l) = Some (s', l') \<longrightarrow>
      Total (Progress s') = Total (Progress s) \<and>
      (sint (progressDone s) + int (length cs) < 2 ^ 63 \<longrightarrow>
         progressDone s \<le>s progressDone s' \<and>
         sint (progressDone s') \<le> sint (progressDone s) + int (length cs))) \<and>
   (\<forall>s'. copyDone b t1 t2 s = Some s' \<longrightarrow>
      progressTotal s' = progressTotal s \<and> progressDone s' = progressDone s + 1) \<and>
   (\<forall>s'. pullDone b t1 t2 s = Some s' \<longrightarrow>
      progressTotal s' = progressTotal s \<and> progressDone s' = progressDone s + 1) \<and>
   progressTotal (pullStarted t1 s) = progressTotal s \<and>
   progressDone (pullStarted t1 s) = progressDone s \<and>
   progressTotal (copiedFromOrigin t1 s) = progressTotal s \<and>
   progressDone (copiedFromOrigin t1 s) = progressDone s \<and>
   progressTotal (copiedFromOriginShifted t1 s) = progressTotal s \<and>
   progressDone (copiedFromOriginShifted t1 s) = progressDone s"
proof -
  have snap: "Total (Progress s) = reused s + copyTotal s + pullTotal s"
    "progressDone s = Total (Progress s) - copyNeeded s - pullNeeded s"
    "BytesDone (Progress s) = blocksToSize (fileBlockSize s) (progressDone s)"
    by (simp_all add: Progress_def Let_def progressTotal_def progressDone_def)
  have ret: "fileBlockSize s \<noteq> 0 \<longrightarrow> run cs (s, l) \<noteq> None"
    using run_returns by blast
  have seq: "\<forall>s' l'. run cs (s, l) = Some (s', l') \<longrightarrow>
      Total (Progress s') = Total (Progress s) \<and>
      (sint (progressDone s) + int (length cs) < 2 ^ 63 \<longrightarrow>
         progressDone s \<le>s progressDone s' \<and>
         sint (progressDone s') \<le> sint (progressDone s) + int (length cs))"
  proof (intro allI impI conjI)
    fix s' l'
    assume r: "run cs (s, l) = Some (s', l')"
    from run_progress [OF r] show "Total (Progress s') = Total (Progress s)"
      by (simp add: Progress_def Let_def)
  next
    fix s' l'
    assume r: "run cs (s, l) = Some (s', l')"
      and bound: "sint (progressDone s) + int (length cs) < 2 ^ 63"
    from run_progress [OF r] obtain k where
      k: "k \<le> length cs" "progressDone s' = progressDone s + of_nat k" by blast
    from k(1) bound have "sint (progressDone s) + int k < 2 ^ 63" by simp
    from sint_add_nat_64 [OF this] k(2)
    have eq: "sint (progressDone s') = sint (progressDone s) + int k" by simp
    from eq show "progressDone s \<le>s progressDone s'" by (simp add: word_sle_eq)
    from eq k(1) show "sint (progressDone s') \<le> sint (progressDone s) + int (length cs)"
      by simp
  qed
  have cd: "\<forall>s'. copyDone b t1 t2 s = Some s' \<longrightarrow>
      progressTotal s' = progressTotal s \<and> progressDone s' = progressDone s + 1"
    by (auto dest!: copyDone_Some simp: progressTotal_def progressDone_def)
  have pd: "\<forall>s'. pullDone b t1 t2 s = Some s' \<longrightarrow>
      progressTotal s' = progressTotal s \<and> progressDone s' = progressDone s + 1"
    by (auto dest!: pullDone_Some simp: progressTotal_def progressDone_def)
  have rest: "progressTotal (pullStarted t1 s) = progressTotal s"
    "progressDone (pullStarted t1 s) = progressDone s"
    "progressTotal (copiedFromOrigin t1 s) = progressTotal s"
    "progressDone (copiedFromOrigin t1 s) = progressDone s"
    "progressTotal (copiedFromOriginShifted t1 s) = progressTotal s"
    "progressDone (copiedFromOriginShifted t1 s) = progressDone s"
    by (simp_all add: pullStarted_def copiedFromOrigin_def copiedFromOriginShifted_def
        progressTotal_def progressDone_def)
  from snap ret seq cd pd rest show ?thesis by blast
qed


theorem progress_invariant_witness:
  "fileBlockSize (sampleTracker okFs 0) \<noteq> 0 \<and>
   sint (progressDone (sampleTracker okFs 0)) + int (length
      [DoCopiedFromOriginShifted (Time 1500000001 0),
       DoCopyDone \<lparr>Offset = 262144\<rparr> (Time 1500000002 0) (Time 1500000002 5),
       DoPullStarted (Time 1500000003 0),
       DoPullDone \<lparr>Offset = 0\<rparr> (Time 1500000004 0) (Time 1500000004 5)]) < 2 ^ 63 \<and>
   progressDone (sampleTracker okFs 0) = 0 \<and>
   map_option (\<lambda>(s', l'). (Total (Progress s'), progressDone s', available s'))
     (run
        [DoCopiedFromOriginShifted (Time 1500000001 0),
         DoCopyDone \<lparr>Offset = 262144\<rparr> (Time 1500000002 0) (Time 1500000002 5),
         DoPullStarted (Time 1500000003 0),
         DoPullDone \<lparr>Offset = 0\<rparr> (Time 1500000004 0) (Time 1500000004 5)]
        (sampleTracker okFs 0, [])) = Some (3, 2, [2, 0])"
  using progress_invariant [where s = "sampleTracker okFs 0" and l = "[]" and cs =
      "[DoCopiedFromOriginShifted (Time 1500000001 0),
        DoCopyDone \<lparr>Offset = 262144\<rparr> (Time 1500000002 0) (Time 1500000002 5),
        DoPullStarted (Time 1500000003 0),
        DoPullDone \<lparr>Offset = 0\<rparr> (Time 1500000004 0) (Time 1500000004 5)]"]
  by (simp add: sampleTracker_def progressDone_def progressTotal_def Progress_def Let_def
      copiedFromOriginShifted_def copyDone_def pullStarted_def pullDone_def blockIndex_def
      quo_def signed_divide_int_def)

section \<open>finalClose\<close>

lemma finalClose_not_ready:
  "closed s \<or> (pullNeeded s + copyNeeded s \<noteq> 0 \<and> err s = None) \<Longrightarrow>
     finalClose s l = ((False, None), s, l)"
  by (auto simp: finalClose_def)

lemma finalClose_no_writer:
  "\<not> closed s \<Longrightarrow> pullNeeded s + copyNeeded s = 0 \<or> err s \<noteq> None \<Longrightarrow> writer s = None \<Longrightarrow>
     finalClose s l = ((True, err s), s\<lparr>closed := True\<rparr>, l @ [Unhide (tempName s)])"
  by (auto simp: finalClose_def fs_do_def Let_def)

lemma finalClose_writer:
  "\<not> closed s \<Longrightarrow> pullNeeded s + copyNeeded s = 0 \<or> err s \<noteq> None \<Longrightarrow> writer s = Some w \<Longrightarrow>
     finalClose s l =
       ((True, if err s = None then fs s (l @ [Sync (fd w)]) (Close (fd w)) else err s),
        s\<lparr>err := (if err s = None then fs s (l @ [Sync (fd w)]) (Close (fd w)) else err s),
          writer := None, closed := True\<rparr>,
        l @ [Sync (fd w), Close (fd w), Unhide (tempName s)])"
  by (auto simp: finalClose_def fs_do_def Let_def SyncClose_def)

lemma finalClose_true_closes:
  "finalClose s l = ((True, e), s', l') \<Longrightarrow> closed s'"
  by (cases "writer s")
    (auto simp: finalClose_def fs_do_def Let_def SyncClose_def split: if_splits)

lemma call_keeps_closed:
  assumes "closed s" and "call c (s, l) = Some (b, s', l')"
  shows "closed s' \<and> \<not> b"
proof (cases c)
  case DoTempFile
  with assms(2) obtain r where "tempFile s l = (r, s', l')" and "\<not> b"
    by (auto split: prod.splits)
  with tempFile_frame [of s l r s' l'] assms(1) show ?thesis by auto
next
  case DoFinalClose
  with assms finalClose_not_ready [of s l] show ?thesis by auto
next
  case (DoCopyDone blk t1 t2)
  with assms(2) have "copyDone blk t1 t2 s = Some s'" "\<not> b" by (auto split: option.splits)
  with copyDone_Some [of blk t1 t2 s s'] assms(1) show ?thesis by auto
next
  case (DoPullDone blk t1 t2)
  with assms(2) have "pullDone blk t1 t2 s = Some s'" "\<not> b" by (auto split: option.splits)
  with pullDone_Some [of blk t1 t2 s s'] assms(1) show ?thesis by auto
qed (use assms in \<open>auto simp: fail_def failLocked_def copiedFromOrigin_def
      copiedFromOriginShifted_def pullStarted_def\<close>)

lemma call_true_closes:
  "call c (s, l) = Some (True, s', l') \<Longrightarrow> closed s'"
  by (cases c) (auto split: prod.splits option.splits dest: finalClose_true_closes)

lemma closings_closed: "closed s \<Longrightarrow> closings cs (s, l) = 0"
proof (induction cs arbitrary: s l)
  case Nil
  then show ?case by simp
next
  case (Cons c cs)
  show ?case
  proof (cases "call c (s, l)")
    case None
    then show ?thesis by simp
  next
    case (Some r)
    then obtain b s1 l1 where c: "call c (s, l) = Some (b, s1, l1)" by (cases r) auto
    from call_keeps_closed [OF Cons.prems c] Cons.IH [of s1 l1] c show ?thesis by simp
  qed
qed

lemma closings_le_1: "closings cs (s, l) \<le> 1"
proof (induction cs arbitrary: s l)
  case Nil
  then show ?case by simp
next
  case (Cons c cs)
  show ?case
  proof (cases "call c (s, l)")
    case None
    then show ?thesis by simp
  next
    case (Some r)
    then obtain b s1 l1 where c: "call c (s, l) = Some (b, s1, l1)" by (cases r) auto
    show ?thesis
    proof (cases b)
      case True
      with c have "call c (s, l) = Some (True, s1, l1)" by simp
      then have "closed s1" by (rule call_true_closes)
      from closings_closed [OF this] c True show ?thesis by simp
    next
      case False
      with c Cons.IH [of s1 l1] show ?thesis by simp
    qed
  qed
qed

text \<open>
  C1. On a closed tracker \<open>finalClose\<close> returns \<open>(false, nil)\<close> and leaves the tracker
  and the filesystem log as they are; so it does on an open tracker with pending copies
  or pulls and no error. In every other case it returns \<open>true\<close> with the tracker's
  error after the call: without a writer the log gains one \<open>Unhide\<close> of the temp name;
  with a writer it gains \<open>Sync\<close>, \<open>Close\<close> and \<open>Unhide\<close> whatever \<open>Sync\<close> answered, the
  answer of \<open>Close\<close> becomes the error only when there was none, and the writer is
  cleared; the tracker is marked closed. Over any sequence of calls on a tracker at most
  one \<open>finalClose\<close> returns \<open>true\<close>, and none on a closed tracker.
\<close>

theorem finalClose_once:
  "(closed s \<longrightarrow> finalClose s l = ((False, None), s, l)) \<and>
   (\<not> closed s \<and> copyNeeded s + pullNeeded s \<noteq> 0 \<and> err s = None \<longrightarrow>
      finalClose s l = ((False, None), s, l)) \<and>
   (\<not> closed s \<and> (copyNeeded s + pullNeeded s = 0 \<or> err s \<noteq> None) \<and> writer s = None \<longrightarrow>
      finalClose s l = ((True, err s), s\<lparr>closed := True\<rparr>, l @ [Unhide (tempName s)])) \<and>
   (\<forall>w. \<not> closed s \<and> (copyNeeded s + pullNeeded s = 0 \<or> err s \<noteq> None)
         \<and> writer s = Some w \<longrightarrow>
      finalClose s l =
        ((True, if err s = None then fs s (l @ [Sync (fd w)]) (Close (fd w)) else err s),
         s\<lparr>err := (if err s = None then fs s (l @ [Sync (fd w)]) (Close (fd w)) else err s),
           writer := None, closed := True\<rparr>,
         l @ [Sync (fd w), Close (fd w), Unhide (tempName s)])) \<and>
   closings cs (s, l) \<le> 1 \<and>
   (closed s \<longrightarrow> closings cs (s, l) = 0)"
proof -
  have comm: "copyNeeded s + pullNeeded s = pullNeeded s + copyNeeded s" by simp
  show ?thesis
    unfolding comm
    using finalClose_not_ready [of s l] finalClose_no_writer [of s l]
      finalClose_writer [of s _ l] closings_le_1 [of cs s l] closings_closed [of s cs l]
    by blast
qed


theorem finalClose_once_witness:
  "finalClose ((sampleTracker okFs 0)\<lparr>closed := True\<rparr>) [Unhide ''t'']
     = ((False, None), (sampleTracker okFs 0)\<lparr>closed := True\<rparr>, [Unhide ''t'']) \<and>
   finalClose (sampleTracker okFs 0) [] = ((False, None), sampleTracker okFs 0, []) \<and>
   finalClose ((sampleTracker okFs 0)\<lparr>err := Some (Error ''pull failed'')\<rparr>) []
     = ((True, Some (Error ''pull failed'')),
        (sampleTracker okFs 0)\<lparr>err := Some (Error ''pull failed''), closed := True\<rparr>,
        [Unhide ''docs/.syncthing.f.txt.tmp'']) \<and>
   finalClose ((sampleTracker noCloseFs 0)\<lparr>copyNeeded := 0, writer := Some \<lparr>fd = 0\<rparr>\<rparr>) []
     = ((True, Some (Error ''close'')),
        (sampleTracker noCloseFs 0)\<lparr>copyNeeded := 0, err := Some (Error ''close''),
           closed := True\<rparr>,
        [Sync 0, Close 0, Unhide ''docs/.syncthing.f.txt.tmp'']) \<and>
   closings [DoFinalClose, DoFail (Some (Error ''pull failed'')), DoFinalClose, DoTempFile,
             DoFinalClose] (sampleTracker okFs 0, []) = 1"
  using finalClose_once [where s = "(sampleTracker okFs 0)\<lparr>closed := True\<rparr>"
      and l = "[Unhide ''t'']" and cs = "[]"]
    finalClose_once [where s = "sampleTracker okFs 0" and l = "[]" and cs =
      "[DoFinalClose, DoFail (Some (Error ''pull failed'')), DoFinalClose, DoTempFile,
        DoFinalClose]"]
    finalClose_once [where s = "(sampleTracker okFs 0)\<lparr>err := Some (Error ''pull failed'')\<rparr>"
      and l = "[]" and cs = "[]"]
    finalClose_once [where s =
      "(sampleTracker noCloseFs 0)\<lparr>copyNeeded := 0, writer := Some \<lparr>fd = 0\<rparr>\<rparr>"
      and l = "[]" and cs = "[]"]
  by (simp add: sampleTracker_def okFs_def noCloseFs_def finalClose_def fs_do_def Let_def
      SyncClose_def fail_def failLocked_def tempFile_def)

section \<open>Creating the temporary file\<close>

lemma openFd_Inr:
  "openFd s l = (Inr f, l1) \<Longrightarrow>
     f = length l \<and>
     l1 = l @ [OpenFile (tempName s) (tempFlags s) (tempMode s), Hide (tempName s)]"
  by (auto simp: openFd_def fs_do_def Let_def split: option.splits)

lemma openTemp_Inr:
  assumes "openTemp s l = (Inr f, l1)"
  shows "f < length l1 \<and> l1 ! f = OpenFile (tempName s) (tempFlags s) (tempMode s) \<and>
         length l1 = f + 2 \<and> last l1 = Hide (tempName s) \<and> take (length l) l1 = l"
proof -
  from assms obtain l0 where o: "openFd s l0 = (Inr f, l1)" and p: "take (length l) l0 = l"
    by (auto simp: openTemp_def fs_do_def Let_def split: if_splits option.splits)
  from openFd_Inr [OF o] have f: "f = length l0"
    and l1: "l1 = l0 @ [OpenFile (tempName s) (tempFlags s) (tempMode s), Hide (tempName s)]"
    by auto
  from p have "length l \<le> length l0" by (metis nat_le_linear take_all)
  with p l1 have "take (length l) l1 = l" by simp
  with f l1 show ?thesis by (simp add: nth_append)
qed

lemma presize_truncate_ignored:
  "sparse s \<Longrightarrow> \<not> IsSymlink (file s) \<Longrightarrow> fs s l (Truncate f (Size (file s))) = Some e \<Longrightarrow>
   \<not> 0 <s reused s \<Longrightarrow>
     presize s f l = (None, s\<lparr>writer := Some \<lparr>fd = f\<rparr>\<rparr>, l @ [Truncate f (Size (file s))])"
  by (simp add: presize_def fs_do_def Let_def)

lemma presize_truncate_surfaced:
  "sparse s \<Longrightarrow> \<not> IsSymlink (file s) \<Longrightarrow> fs s l (Truncate f (Size (file s))) = Some e \<Longrightarrow>
   0 <s reused s \<Longrightarrow>
     presize s f l =
       (Some e, s, l @ [Truncate f (Size (file s)), Close f, Remove (tempName s)])"
  by (simp add: presize_def fs_do_def Let_def)

lemma tempFile_sticky:
  "err s = Some e \<Longrightarrow> tempFile s l = ((None, Some e), s, l)"
  by (simp add: tempFile_def)

text \<open>
  C7. Let the first half of the creation succeed, so that the log ends with the open and
  the hide and the handle is the one of that open, and let the truncate of a sparse file
  that is not a symlink fail with \<open>e\<close>. With no reused block the failure is ignored: the
  creation returns \<open>nil\<close> with the handle as writer, and \<open>tempFile\<close> returns that writer.
  With reused blocks the handle is closed, the temp file is removed and \<open>e\<close> itself is
  returned, with no writer stored; \<open>tempFile\<close> returns \<open>e\<close> and makes it the tracker's
  error, and every later \<open>tempFile\<close> returns \<open>e\<close> without touching the filesystem.
\<close>

theorem truncate_failure:
  "openTemp s l = (Inr f, l1) \<and> sparse s \<and> \<not> IsSymlink (file s)
     \<and> fs s l1 (Truncate f (Size (file s))) = Some e \<longrightarrow>
   l1 ! f = OpenFile (tempName s) (tempFlags s) (tempMode s) \<and>
   last l1 = Hide (tempName s) \<and>
   (reused s = 0 \<longrightarrow>
      tempFileInWritableDir s (tempName s) l
        = (None, s\<lparr>writer := Some \<lparr>fd = f\<rparr>\<rparr>, l1 @ [Truncate f (Size (file s))]) \<and>
      (err s = None \<and> writer s = None \<longrightarrow>
         tempFile s l
           = ((Some \<lparr>fd = f\<rparr>, None), s\<lparr>writer := Some \<lparr>fd = f\<rparr>\<rparr>,
              l1 @ [Truncate f (Size (file s))]))) \<and>
   (0 <s reused s \<longrightarrow>
      tempFileInWritableDir s (tempName s) l
        = (Some e, s, l1 @ [Truncate f (Size (file s)), Close f, Remove (tempName s)]) \<and>
      (err s = None \<and> writer s = None \<longrightarrow>
         tempFile s l
           = ((None, Some e), s\<lparr>err := Some e\<rparr>,
              l1 @ [Truncate f (Size (file s)), Close f, Remove (tempName s)]) \<and>
         (\<forall>l2. tempFile (s\<lparr>err := Some e\<rparr>) l2 = ((None, Some e), s\<lparr>err := Some e\<rparr>, l2))))"
proof (intro impI, elim conjE)
  assume o: "openTemp s l = (Inr f, l1)" and sp: "sparse s" and sy: "\<not> IsSymlink (file s)"
    and t: "fs s l1 (Truncate f (Size (file s))) = Some e"
  note shape = openTemp_Inr [OF o]
  have zero: "tempFileInWritableDir s (tempName s) l
        = (None, s\<lparr>writer := Some \<lparr>fd = f\<rparr>\<rparr>, l1 @ [Truncate f (Size (file s))])"
    if "reused s = 0"
    using that o presize_truncate_ignored [OF sp sy t]
    by (simp add: tempFileInWritableDir_def word_sless_alt)
  have pos: "tempFileInWritableDir s (tempName s) l
        = (Some e, s, l1 @ [Truncate f (Size (file s)), Close f, Remove (tempName s)])"
    if "0 <s reused s"
    using that o presize_truncate_surfaced [OF sp sy t]
    by (simp add: tempFileInWritableDir_def)
  have zero': "tempFile s l
           = ((Some \<lparr>fd = f\<rparr>, None), s\<lparr>writer := Some \<lparr>fd = f\<rparr>\<rparr>,
              l1 @ [Truncate f (Size (file s))])"
    if "reused s = 0" "err s = None" "writer s = None"
    using that zero by (simp add: tempFile_def inWritableDir_def)
  have pos': "tempFile s l
           = ((None, Some e), s\<lparr>err := Some e\<rparr>,
              l1 @ [Truncate f (Size (file s)), Close f, Remove (tempName s)])"
    if "0 <s reused s" "err s = None" "writer s = None"
    using that pos by (simp add: tempFile_def inWritableDir_def failLocked_def)
  have again: "tempFile (s\<lparr>err := Some e\<rparr>) l2 = ((None, Some e), s\<lparr>err := Some e\<rparr>, l2)" for l2
    by (simp add: tempFile_sticky)
  from shape zero zero' pos pos' again
  show "l1 ! f = OpenFile (tempName s) (tempFlags s) (tempMode s) \<and>
   last l1 = Hide (tempName s) \<and>
   (reused s = 0 \<longrightarrow>
      tempFileInWritableDir s (tempName s) l
        = (None, s\<lparr>writer := Some \<lparr>fd = f\<rparr>\<rparr>, l1 @ [Truncate f (Size (file s))]) \<and>
      (err s = None \<and> writer s = None \<longrightarrow>
         tempFile s l
           = ((Some \<lparr>fd = f\<rparr>, None), s\<lparr>writer := Some \<lparr>fd = f\<rparr>\<rparr>,
              l1 @ [Truncate f (Size (file s))]))) \<and>
   (0 <s reused s \<longrightarrow>
      tempFileInWritableDir s (tempName s) l
        = (Some e, s, l1 @ [Truncate f (Size (file s)), Close f, Remove (tempName s)]) \<and>
      (err s = None \<and> writer s = None \<longrightarrow>
         tempFile s l
           = ((None, Some e), s\<lparr>err := Some e\<rparr>,
              l1 @ [Truncate f (Size (file s)), Close f, Remove (tempName s)]) \<and>
         (\<forall>l2. tempFile (s\<lparr>err := Some e\<rparr>) l2 = ((None, Some e), s\<lparr>err := Some e\<rparr>, l2))))"
    by blast
qed


theorem truncate_failure_witness:
  "openTemp (sampleTracker noTruncateFs 0) []
     = (Inr 0, [OpenFile ''docs/.syncthing.f.txt.tmp'' [OptReadWrite, OptCreate, OptExclusive] 420,
                Hide ''docs/.syncthing.f.txt.tmp'']) \<and>
   sparse (sampleTracker noTruncateFs 0) \<and> \<not> IsSymlink (file (sampleTracker noTruncateFs 0)) \<and>
   tempFile (sampleTracker noTruncateFs 0) []
     = ((Some \<lparr>fd = 0\<rparr>, None), (sampleTracker noTruncateFs 0)\<lparr>writer := Some \<lparr>fd = 0\<rparr>\<rparr>,
        [OpenFile ''docs/.syncthing.f.txt.tmp'' [OptReadWrite, OptCreate, OptExclusive] 420,
         Hide ''docs/.syncthing.f.txt.tmp'', Truncate 0 1000]) \<and>
   openTemp (sampleTracker noTruncateFs 2) []
     = (Inr 2, [Chmod ''docs/.syncthing.f.txt.tmp'' 420,
                Lchown ''docs/.syncthing.f.txt.tmp'' 1000 100,
                OpenFile ''docs/.syncthing.f.txt.tmp'' [OptReadWrite] 420,
                Hide ''docs/.syncthing.f.txt.tmp'']) \<and>
   0 <s reused (sampleTracker noTruncateFs 2) \<and>
   tempFile (sampleTracker noTruncateFs 2) []
     = ((None, Some (Error ''no space'')),
        (sampleTracker noTruncateFs 2)\<lparr>err := Some (Error ''no space'')\<rparr>,
        [Chmod ''docs/.syncthing.f.txt.tmp'' 420,
         Lchown ''docs/.syncthing.f.txt.tmp'' 1000 100,
         OpenFile ''docs/.syncthing.f.txt.tmp'' [OptReadWrite] 420,
         Hide ''docs/.syncthing.f.txt.tmp'', Truncate 2 1000, Close 2,
         Remove ''docs/.syncthing.f.txt.tmp'']) \<and>
   tempFile ((sampleTracker noTruncateFs 2)\<lparr>err := Some (Error ''no space'')\<rparr>) []
     = ((None, Some (Error ''no space'')),
        (sampleTracker noTruncateFs 2)\<lparr>err := Some (Error ''no space'')\<rparr>, [])"
  using truncate_failure [where s = "sampleTracker noTruncateFs 0" and l = "[]" and f = 0
      and e = "Error ''no space''"
      and ?l1.0 = "[OpenFile ''docs/.syncthing.f.txt.tmp'' [OptReadWrite, OptCreate, OptExclusive] 420,
                Hide ''docs/.syncthing.f.txt.tmp'']"]
    truncate_failure [where s = "sampleTracker noTruncateFs 2" and l = "[]" and f = 2
      and e = "Error ''no space''"
      and ?l1.0 = "[Chmod ''docs/.syncthing.f.txt.tmp'' 420,
                Lchown ''docs/.syncthing.f.txt.tmp'' 1000 100,
                OpenFile ''docs/.syncthing.f.txt.tmp'' [OptReadWrite] 420,
                Hide ''docs/.syncthing.f.txt.tmp'']"]
  by (simp add: sampleTracker_def sampleFile_def noTruncateFs_def openTemp_def openFd_def
      fs_do_def Let_def tempMode_def tempFlags_def IsSymlink_def word_sless_alt)

section \<open>deleteQueue.flush\<close>

lemma mset_insertReverse: "mset (insertReverse x ys) = add_mset x (mset ys)"
  by (induction ys) auto

lemma set_insertReverse: "set (insertReverse x ys) = insert x (set ys)"
  by (induction ys) auto

lemma sorted_insertReverse:
  "sorted_wrt (\<lambda>a b. b \<le> a) ys \<Longrightarrow> sorted_wrt (\<lambda>a b. b \<le> a) (insertReverse x ys)"
  by (induction ys) (auto simp: set_insertReverse)

lemma mset_sortReverse: "mset (sortReverse xs) = mset xs"
  by (induction xs) (auto simp: sortReverse_def mset_insertReverse)

lemma sorted_sortReverse: "sorted_wrt (\<lambda>a b. b \<le> a) (sortReverse xs)"
  by (induction xs) (auto simp: sortReverse_def sorted_insertReverse)

lemma sortReverse_rev_sort: "sortReverse xs = rev (sort xs)"
proof -
  have "sorted (rev (sortReverse xs))"
    using sorted_sortReverse [of xs] by (simp add: sorted_wrt_rev)
  moreover have "mset (rev (sortReverse xs)) = mset xs"
    by (simp add: mset_sortReverse)
  ultimately have "sort xs = rev (sortReverse xs)"
    by (rule properties_for_sort [rotated])
  then show ?thesis by simp
qed

lemma attempts_names: "map fst (attempts h ds l) = ds"
  by (induction ds arbitrary: l) auto

lemma flushLoop_attempts:
  "flushLoop h ds fe del l =
     ((del @ map fst (filter (\<lambda>(d, r). r = None) (attempts h ds l)),
       (if fe \<noteq> None then fe else firstFailure (attempts h ds l))),
      l @ map DeleteDirOnDisk ds)"
proof (induction ds arbitrary: fe del l)
  case Nil
  then show ?case by (simp add: firstFailure_def)
next
  case (Cons d ds)
  show ?case
  proof (cases "deleteDirOnDisk h l d")
    case None
    then show ?thesis by (simp add: Cons.IH Let_def firstFailure_def)
  next
    case (Some e)
    then show ?thesis by (cases fe) (simp_all add: Cons.IH Let_def firstFailure_def)
  qed
qed

text \<open>
  C6. \<open>flush\<close> asks the handler to delete every queued directory, once each, in
  descending string order (the reverse of the sorted queue), so a name is tried before
  every smaller one and \<open>a/b\<close> before \<open>a\<close>. It returns the names whose deletion
  answered \<open>nil\<close>, in that order, and the first error answered, and an error stops
  nothing: the log gains one deletion per queued directory.
\<close>

theorem flush_descending:
  "flush q l =
     ((map fst (filter (\<lambda>(d, r). r = None) (attempts (handler q) (sortReverse (dirs q)) l)),
       firstFailure (attempts (handler q) (sortReverse (dirs q)) l)),
      q\<lparr>dirs := sortReverse (dirs q)\<rparr>,
      l @ map DeleteDirOnDisk (sortReverse (dirs q))) \<and>
   map fst (attempts (handler q) (sortReverse (dirs q)) l) = sortReverse (dirs q) \<and>
   sortReverse (dirs q) = rev (sort (dirs q)) \<and>
   sorted_wrt (\<lambda>a b. b \<le> a) (sortReverse (dirs q)) \<and>
   mset (sortReverse (dirs q)) = mset (dirs q) \<and>
   sortReverse [''a'', ''a/b''] = [''a/b'', ''a'']"
proof -
  have "sortReverse [''a'', ''a/b''] = [''a/b'', ''a'']"
    by (simp add: sortReverse_def)
  then show ?thesis
    by (simp add: flush_def Let_def flushLoop_attempts attempts_names sorted_sortReverse
        mset_sortReverse sortReverse_rev_sort [symmetric])
qed

theorem flush_descending_witness:
  "flush \<lparr>handler = failingHandler, ignores = noIgnores, dirs = [''a'', ''a/b'', ''b'']\<rparr> []
     = (([''a''], Some (Error ''b: not empty'')),
        \<lparr>handler = failingHandler, ignores = noIgnores, dirs = [''b'', ''a/b'', ''a'']\<rparr>,
        [DeleteDirOnDisk ''b'', DeleteDirOnDisk ''a/b'', DeleteDirOnDisk ''a''])"
  using flush_descending [where q =
      "\<lparr>handler = failingHandler, ignores = noIgnores, dirs = [''a'', ''a/b'', ''b'']\<rparr>"
      and l = "[]"]
  by (simp add: sortReverse_def failingHandler_def firstFailure_def)

section \<open>Revert\<close>

lemma handedOver_append: "handedOver (l @ l') = handedOver l @ handedOver l'"
  by (induction l rule: handedOver.induct) auto

lemma deletions_append: "deletions (l @ l') = deletions l @ deletions l'"
  by (induction l rule: deletions.induct) auto

lemma batched_addToBatch: "batched (addToBatch P x st) = batched st @ [x]"
  by (simp add: batched_def addToBatch_def Let_def handedOver_append)

lemma addToBatch_keeps:
  "delQueue (addToBatch P x st) = delQueue st \<and>
   deletions (world (addToBatch P x st)) = deletions (world st)"
  by (simp add: addToBatch_def Let_def deletions_append)

lemma handle_handedOver:
  "handle q fi l = (r, q1, l1) \<Longrightarrow> handedOver l1 = handedOver l"
  by (auto simp: handle_def Let_def handedOver_append split: if_splits)

lemma flag_cleared:
  "\<not> IsReceiveOnlyChanged flag (fi\<lparr>Version := v, LocalFlags := LocalFlags fi AND NOT flag\<rparr>)"
  by (simp add: IsReceiveOnlyChanged_def and.assoc)

lemma onlyLocalCounter_iff:
  "onlyLocalCounter f fi \<longleftrightarrow> (\<exists>c. Counters (Version fi) = [c] \<and> ID c = shortID f)"
  by (cases "Counters (Version fi)") (auto simp: onlyLocalCounter_def)

text \<open>
  C3, as the claim has it: a flagged record whose only counter is the local device's is
  replaced by a tombstone in the batch whenever the queue reports it handled. On a disk
  that refuses the deletion the queue reports the record handled, together with the
  error, and nothing is put in the batch.
\<close>

theorem visit_handled_not_batched:
  "IsReceiveOnlyChanged (FlagLocalReceiveOnly sampleParams) sampleFile \<and>
   onlyLocalCounter (sampleFolder failingHandler) sampleFile \<and>
   handle (delQueue (sampleState failingHandler)) sampleFile (world (sampleState failingHandler))
     = ((True, Some (Error ''permission denied'')), delQueue (sampleState failingHandler),
        [DeleteItemOnDisk sampleFile]) \<and>
   batched (visit sampleParams (sampleFolder failingHandler) sampleFile
              (sampleState failingHandler)) = [] \<and>
   batched (visit sampleParams (sampleFolder failingHandler) sampleFile
              (sampleState failingHandler))
     \<noteq> batched (sampleState failingHandler)
         @ [fileTombstone (sampleFolder failingHandler) sampleFile]"
  by (simp add: visit_def handle_def Let_def sampleParams_def sampleFile_def sampleFolder_def
      sampleState_def sampleQueue_def failingHandler_def noIgnores_def IsDirectory_def
      IsReceiveOnlyChanged_def onlyLocalCounter_def batched_def)

text \<open>
  C3, amended. A record without the receive-only flag leaves the whole state of the
  revert as it was. A flagged record whose version is exactly one counter of the local
  device is handed to the delete queue; when the queue reports it handled and without
  error, its tombstone is the one record added to the batch, carrying the name, type,
  modification time, owner and permissions of the record, marked deleted, with the empty
  version; when the queue reports an error or reports it not handled, no record is
  added. A flagged record with any other version is added to the batch with the empty
  version and the flag cleared; the queue and the deletions asked of the disk stay as
  they were.
\<close>

theorem visit_per_record:
  "(\<not> IsReceiveOnlyChanged (FlagLocalReceiveOnly P) fi \<longrightarrow> visit P f fi st = st) \<and>
   (IsReceiveOnlyChanged (FlagLocalReceiveOnly P) fi \<and> onlyLocalCounter f fi \<longrightarrow>
      delQueue (visit P f fi st) = fst (snd (handle (delQueue st) fi (world st))) \<and>
      deletions (world (visit P f fi st))
        = deletions (snd (snd (handle (delQueue st) fi (world st)))) \<and>
      (fst (fst (handle (delQueue st) fi (world st)))
         \<and> snd (fst (handle (delQueue st) fi (world st))) = None \<longrightarrow>
         batched (visit P f fi st) = batched st @ [fileTombstone f fi]) \<and>
      (\<not> fst (fst (handle (delQueue st) fi (world st)))
         \<or> snd (fst (handle (delQueue st) fi (world st))) \<noteq> None \<longrightarrow>
         visit P f fi st
           = st\<lparr>delQueue := fst (snd (handle (delQueue st) fi (world st))),
                world := snd (snd (handle (delQueue st) fi (world st)))\<rparr> \<and>
         batched (visit P f fi st) = batched st)) \<and>
   (IsReceiveOnlyChanged (FlagLocalReceiveOnly P) fi \<and> \<not> onlyLocalCounter f fi \<longrightarrow>
      batched (visit P f fi st)
        = batched st @ [fi\<lparr>Version := emptyVector,
                            LocalFlags := LocalFlags fi AND NOT (FlagLocalReceiveOnly P)\<rparr>] \<and>
      \<not> IsReceiveOnlyChanged (FlagLocalReceiveOnly P)
          (fi\<lparr>Version := emptyVector,
              LocalFlags := LocalFlags fi AND NOT (FlagLocalReceiveOnly P)\<rparr>) \<and>
      delQueue (visit P f fi st) = delQueue st \<and>
      deletions (world (visit P f fi st)) = deletions (world st)) \<and>
   (onlyLocalCounter f fi \<longleftrightarrow> (\<exists>c. Counters (Version fi) = [c] \<and> ID c = shortID f)) \<and>
   Name (fileTombstone f fi) = Name fi \<and>
   Type (fileTombstone f fi) = Type fi \<and>
   ModifiedS (fileTombstone f fi) = ModifiedS fi \<and>
   ModifiedNs (fileTombstone f fi) = ModifiedNs fi \<and>
   Uid (fileTombstone f fi) = Uid fi \<and>
   Gid (fileTombstone f fi) = Gid fi \<and>
   Permissions (fileTombstone f fi) = Permissions fi \<and>
   Deleted (fileTombstone f fi) \<and>
   Counters (Version (fileTombstone f fi)) = [] \<and>
   Counters emptyVector = []"
proof -
  have unflagged: "\<not> IsReceiveOnlyChanged (FlagLocalReceiveOnly P) fi \<longrightarrow> visit P f fi st = st"
    by (simp add: visit_def)
  have local: "delQueue (visit P f fi st) = fst (snd (handle (delQueue st) fi (world st))) \<and>
      deletions (world (visit P f fi st))
        = deletions (snd (snd (handle (delQueue st) fi (world st)))) \<and>
      (fst (fst (handle (delQueue st) fi (world st)))
         \<and> snd (fst (handle (delQueue st) fi (world st))) = None \<longrightarrow>
         batched (visit P f fi st) = batched st @ [fileTombstone f fi]) \<and>
      (\<not> fst (fst (handle (delQueue st) fi (world st)))
         \<or> snd (fst (handle (delQueue st) fi (world st))) \<noteq> None \<longrightarrow>
         visit P f fi st
           = st\<lparr>delQueue := fst (snd (handle (delQueue st) fi (world st))),
                world := snd (snd (handle (delQueue st) fi (world st)))\<rparr> \<and>
         batched (visit P f fi st) = batched st)"
    if fl: "IsReceiveOnlyChanged (FlagLocalReceiveOnly P) fi" "onlyLocalCounter f fi"
  proof -
    obtain handled e q1 l1 where
      h: "handle (delQueue st) fi (world st) = ((handled, e), q1, l1)"
      by (metis surj_pair)
    have b: "batched (st\<lparr>delQueue := q1, world := l1\<rparr>) = batched st"
      using handle_handedOver [OF h] by (simp add: batched_def)
    show ?thesis
    proof (cases "handled \<and> e = None")
      case True
      with fl h have "visit P f fi st
          = addToBatch P (fileTombstone f fi) (st\<lparr>delQueue := q1, world := l1\<rparr>)"
        by (simp add: visit_def Let_def)
      with True b h show ?thesis
        by (simp add: batched_addToBatch addToBatch_keeps)
    next
      case False
      with fl h have "visit P f fi st = st\<lparr>delQueue := q1, world := l1\<rparr>"
        by (auto simp: visit_def Let_def)
      with False b h show ?thesis by auto
    qed
  qed
  have shared: "IsReceiveOnlyChanged (FlagLocalReceiveOnly P) fi \<and> \<not> onlyLocalCounter f fi \<longrightarrow>
      batched (visit P f fi st)
        = batched st @ [fi\<lparr>Version := emptyVector,
                            LocalFlags := LocalFlags fi AND NOT (FlagLocalReceiveOnly P)\<rparr>] \<and>
      \<not> IsReceiveOnlyChanged (FlagLocalReceiveOnly P)
          (fi\<lparr>Version := emptyVector,
              LocalFlags := LocalFlags fi AND NOT (FlagLocalReceiveOnly P)\<rparr>) \<and>
      delQueue (visit P f fi st) = delQueue st \<and>
      deletions (world (visit P f fi st)) = deletions (world st)"
    by (simp add: visit_def batched_addToBatch addToBatch_keeps flag_cleared)
  have tomb: "Name (fileTombstone f fi) = Name fi \<and>
   Type (fileTombstone f fi) = Type fi \<and>
   ModifiedS (fileTombstone f fi) = ModifiedS fi \<and>
   ModifiedNs (fileTombstone f fi) = ModifiedNs fi \<and>
   Uid (fileTombstone f fi) = Uid fi \<and>
   Gid (fileTombstone f fi) = Gid fi \<and>
   Permissions (fileTombstone f fi) = Permissions fi \<and>
   Deleted (fileTombstone f fi) \<and>
   Counters (Version (fileTombstone f fi)) = [] \<and>
   Counters emptyVector = []"
    by (simp add: fileTombstone_def emptyVector_def)
  from unflagged local shared tomb onlyLocalCounter_iff [of f fi] show ?thesis
    by blast
qed


theorem visit_per_record_witness:
  "visit sampleParams (sampleFolder okHandler) (sampleFile\<lparr>LocalFlags := 0\<rparr>)
       (sampleState okHandler) = sampleState okHandler \<and>
   handle (delQueue (sampleState okHandler)) sampleFile (world (sampleState okHandler))
     = ((True, None), delQueue (sampleState okHandler), [DeleteItemOnDisk sampleFile]) \<and>
   batched (visit sampleParams (sampleFolder okHandler) sampleFile (sampleState okHandler))
     = [\<lparr>Name = ''docs/f.txt'', Type = FileInfoTypeFile, Size = 0, Permissions = 420,
         ModifiedS = 1500000000, ModifiedNs = 17, ModifiedBy = 42, Deleted = True,
         Version = \<lparr>Counters = []\<rparr>, LocalFlags = 0, Uid = 1000, Gid = 100\<rparr>] \<and>
   handle (delQueue (sampleState okHandler)) sampleDir (world (sampleState okHandler))
     = ((False, None), (delQueue (sampleState okHandler))\<lparr>dirs := [''docs'']\<rparr>, []) \<and>
   visit sampleParams (sampleFolder okHandler) sampleDir (sampleState okHandler)
     = (sampleState okHandler)
         \<lparr>delQueue := (delQueue (sampleState okHandler))\<lparr>dirs := [''docs'']\<rparr>\<rparr> \<and>
   \<not> onlyLocalCounter (sampleFolder okHandler) sampleShared \<and>
   batched (visit sampleParams (sampleFolder okHandler) sampleShared (sampleState okHandler))
     = [sampleShared\<lparr>Version := \<lparr>Counters = []\<rparr>, LocalFlags := 0\<rparr>] \<and>
   deletions (world (visit sampleParams (sampleFolder okHandler) sampleShared
                       (sampleState okHandler))) = []"
  using visit_per_record [where P = sampleParams and f = "sampleFolder okHandler"
      and fi = "sampleFile\<lparr>LocalFlags := 0\<rparr>" and st = "sampleState okHandler"]
    visit_per_record [where P = sampleParams and f = "sampleFolder okHandler"
      and fi = sampleFile and st = "sampleState okHandler"]
    visit_per_record [where P = sampleParams and f = "sampleFolder okHandler"
      and fi = sampleDir and st = "sampleState okHandler"]
    visit_per_record [where P = sampleParams and f = "sampleFolder okHandler"
      and fi = sampleShared and st = "sampleState okHandler"]
  by (simp add: handle_def Let_def sampleParams_def sampleFile_def sampleDir_def
      sampleShared_def sampleFolder_def sampleState_def sampleQueue_def okHandler_def
      noIgnores_def IsDirectory_def IsReceiveOnlyChanged_def onlyLocalCounter_def
      batched_def fileTombstone_def emptyVector_def)

lemma submit_world:
  "world (submit st) =
     world st @ (if batch st = [] then [] else [UpdateLocalsFromScanning (batch st)])"
  by (simp add: submit_def)

lemma revertScan_batch: "batch (revertScan P f recs l) = []"
  by (simp add: revertScan_def Let_def)

lemma flush_deleted_queued:
  assumes "flush q l = ((deleted, e), q1, l1)"
  shows "set deleted \<subseteq> set (dirs q)"
proof -
  from assms have d: "deleted
      = map fst (filter (\<lambda>(d, r). r = None) (attempts (handler q) (sortReverse (dirs q)) l))"
    by (simp add: flush_def Let_def flushLoop_attempts)
  have "set deleted \<subseteq> set (map fst (attempts (handler q) (sortReverse (dirs q)) l))"
    unfolding d by auto
  also have "\<dots> = set (sortReverse (dirs q))"
    by (simp only: attempts_names)
  also have "\<dots> = set (dirs q)"
    by (metis mset_sortReverse set_mset_mset)
  finally show ?thesis .
qed

text \<open>
  C10. After the scan the batch is empty. \<open>Revert\<close> then flushes the delete queue and,
  when directories were deleted, hands over exactly one batch: one record per deleted
  directory, in the order of deletion, each of them queued before. Such a record has the
  directory's name, the type directory, is marked deleted, has the empty version, the
  local short ID as modifier, the seconds of the clock read after the flush as
  modification time, and zero for the nanoseconds, the owner, the group and the
  permissions, where the tombstone of a file copies them from the record.
\<close>

theorem dir_tombstones:
  "batch (revertScan P f recs l) = [] \<and>
   world (Revert P f recs now l)
     = snd (snd (flush (delQueue (revertScan P f recs l)) (world (revertScan P f recs l))))
       @ (if fst (fst (flush (delQueue (revertScan P f recs l))
                        (world (revertScan P f recs l)))) = [] then []
          else [UpdateLocalsFromScanning
                  (map (dirTombstone f now)
                     (fst (fst (flush (delQueue (revertScan P f recs l))
                                  (world (revertScan P f recs l))))))])
       @ [SchedulePull, CloseScanChan, SetState FolderIdle] \<and>
   set (fst (fst (flush (delQueue (revertScan P f recs l)) (world (revertScan P f recs l)))))
     \<subseteq> set (dirs (delQueue (revertScan P f recs l))) \<and>
   Name (dirTombstone f now d) = d \<and>
   Type (dirTombstone f now d) = FileInfoTypeDirectory \<and>
   Deleted (dirTombstone f now d) \<and>
   Counters (Version (dirTombstone f now d)) = [] \<and>
   ModifiedBy (dirTombstone f now d) = shortID f \<and>
   ModifiedS (dirTombstone f now d) = Unix now \<and>
   ModifiedNs (dirTombstone f now d) = 0 \<and>
   Uid (dirTombstone f now d) = 0 \<and>
   Gid (dirTombstone f now d) = 0 \<and>
   Permissions (dirTombstone f now d) = 0 \<and>
   ModifiedS (fileTombstone f fi) = ModifiedS fi \<and>
   Uid (fileTombstone f fi) = Uid fi \<and>
   Gid (fileTombstone f fi) = Gid fi \<and>
   Permissions (fileTombstone f fi) = Permissions fi"
proof -
  obtain deleted e q1 l1 where
    fl: "flush (delQueue (revertScan P f recs l)) (world (revertScan P f recs l))
        = ((deleted, e), q1, l1)"
    by (metis surj_pair)
  have w: "world (Revert P f recs now l)
        = l1 @ (if deleted = [] then []
                else [UpdateLocalsFromScanning (map (dirTombstone f now) deleted)])
             @ [SchedulePull, CloseScanChan, SetState FolderIdle]"
    using fl by (simp add: Revert_def revertDirs_def Let_def revertScan_batch submit_def)
  have fields: "Name (dirTombstone f now d) = d \<and>
   Type (dirTombstone f now d) = FileInfoTypeDirectory \<and>
   Deleted (dirTombstone f now d) \<and>
   Counters (Version (dirTombstone f now d)) = [] \<and>
   ModifiedBy (dirTombstone f now d) = shortID f \<and>
   ModifiedS (dirTombstone f now d) = Unix now \<and>
   ModifiedNs (dirTombstone f now d) = 0 \<and>
   Uid (dirTombstone f now d) = 0 \<and>
   Gid (dirTombstone f now d) = 0 \<and>
   Permissions (dirTombstone f now d) = 0 \<and>
   ModifiedS (fileTombstone f fi) = ModifiedS fi \<and>
   Uid (fileTombstone f fi) = Uid fi \<and>
   Gid (fileTombstone f fi) = Gid fi \<and>
   Permissions (fileTombstone f fi) = Permissions fi"
    by (simp add: dirTombstone_def fileTombstone_def emptyVector_def)
  from w fields revertScan_batch [of P f recs l] flush_deleted_queued [OF fl] fl
  show ?thesis by simp
qed


theorem dir_tombstones_witness:
  "Permissions sampleDir = 493 \<and> Uid sampleDir = 1000 \<and> ModifiedS sampleDir = 1500000000 \<and>
   world (Revert sampleParams (sampleFolder okHandler) [sampleDir, sampleFile, sampleShared]
            (Time 1600000000 5) [])
     = [SetState FolderScanning, GoPullScannerRoutine, DeleteItemOnDisk sampleFile,
        UpdateLocalsFromScanning
          [fileTombstone (sampleFolder okHandler) sampleFile,
           sampleShared\<lparr>Version := \<lparr>Counters = []\<rparr>, LocalFlags := 0\<rparr>],
        DeleteDirOnDisk ''docs'',
        UpdateLocalsFromScanning
          [\<lparr>Name = ''docs'', Type = FileInfoTypeDirectory, Size = 0, Permissions = 0,
            ModifiedS = 1600000000, ModifiedNs = 0, ModifiedBy = 42, Deleted = True,
            Version = \<lparr>Counters = []\<rparr>, LocalFlags = 0, Uid = 0, Gid = 0\<rparr>],
        SchedulePull, CloseScanChan, SetState FolderIdle]"
proof -
  have scan: "revertScan sampleParams (sampleFolder okHandler)
                [sampleDir, sampleFile, sampleShared] []
      = \<lparr>delQueue = \<lparr>handler = okHandler, ignores = noIgnores, dirs = [''docs'']\<rparr>,
         batch = [], batchSizeBytes = 0,
         world = [SetState FolderScanning, GoPullScannerRoutine, DeleteItemOnDisk sampleFile,
                  UpdateLocalsFromScanning
                    [fileTombstone (sampleFolder okHandler) sampleFile,
                     sampleShared\<lparr>Version := \<lparr>Counters = []\<rparr>, LocalFlags := 0\<rparr>]]\<rparr>"
    by (simp add: revertScan_def visit_def handle_def addToBatch_def submit_def Let_def
        sampleParams_def sampleFile_def sampleDir_def sampleShared_def sampleFolder_def
        okHandler_def noIgnores_def IsDirectory_def IsReceiveOnlyChanged_def
        onlyLocalCounter_def fileTombstone_def emptyVector_def word_sle_eq)
  have fl: "flush \<lparr>handler = okHandler, ignores = noIgnores, dirs = [''docs'']\<rparr>
              [SetState FolderScanning, GoPullScannerRoutine, DeleteItemOnDisk sampleFile,
               UpdateLocalsFromScanning
                 [fileTombstone (sampleFolder okHandler) sampleFile,
                  sampleShared\<lparr>Version := \<lparr>Counters = []\<rparr>, LocalFlags := 0\<rparr>]]
      = (([''docs''], None),
         \<lparr>handler = okHandler, ignores = noIgnores, dirs = [''docs'']\<rparr>,
         [SetState FolderScanning, GoPullScannerRoutine, DeleteItemOnDisk sampleFile,
          UpdateLocalsFromScanning
            [fileTombstone (sampleFolder okHandler) sampleFile,
             sampleShared\<lparr>Version := \<lparr>Counters = []\<rparr>, LocalFlags := 0\<rparr>],
          DeleteDirOnDisk ''docs''])"
    by (simp add: flush_def sortReverse_def Let_def okHandler_def)
  have vals: "Permissions sampleDir = 493" "Uid sampleDir = 1000"
    "ModifiedS sampleDir = 1500000000" "shortID (sampleFolder okHandler) = 42"
    by (simp_all add: sampleDir_def sampleFile_def sampleFolder_def)
  show ?thesis
    using dir_tombstones [where P = sampleParams and f = "sampleFolder okHandler"
        and recs = "[sampleDir, sampleFile, sampleShared]" and now = "Time 1600000000 5"
        and l = "[]" and d = "''docs''"]
    by (simp add: scan fl vals dirTombstone_def emptyVector_def)
qed

end
